theory Spec2Isabelle
  imports Main "HOL-Library.AList"
begin

section \<open>Python strings as used by the ENUM client\<close>

text \<open>
  A Python string is a \<^typ>\<open>string\<close>: a list of characters with code points 0 to 255.
  In that range \<open>str.isdigit\<close> holds of the decimal digits and of the superscript digits
  U+00B2, U+00B3 and U+00B9, and \<open>str.strip\<close> removes the control characters 0x09 to 0x0D and
  0x1C to 0x1F, the space, U+0085 and U+00A0.
\<close>

definition isdigit :: "char \<Rightarrow> bool" where
  "isdigit c = (c \<in> set (''0123456789'' @ [CHR 0xB2, CHR 0xB3, CHR 0xB9]))"

definition isspace :: "char \<Rightarrow> bool" where
  "isspace c = (c \<in> set [CHR '' '', CHR 0x09, CHR 0x0A, CHR 0x0B, CHR 0x0C, CHR 0x0D,
                           CHR 0x1C, CHR 0x1D, CHR 0x1E, CHR 0x1F, CHR 0x85, CHR 0xA0])"

definition strip :: "string \<Rightarrow> string" where
  "strip s = rev (dropWhile isspace (rev (dropWhile isspace s)))"

text \<open>\<open>sep.join(xs)\<close>\<close>

fun join :: "string \<Rightarrow> string list \<Rightarrow> string" where
  "join sep [] = []"
| "join sep [x] = x"
| "join sep (x # y # ys) = x @ sep @ join sep (y # ys)"

text \<open>\<open>s.split(sep)\<close> for a one-character separator: the empty string gives one empty field.\<close>

fun split :: "char \<Rightarrow> string \<Rightarrow> string list" where
  "split sep [] = [[]]"
| "split sep (c # cs) =
     (if c = sep then [] # split sep cs
      else (case split sep cs of
              [] \<Rightarrow> [[c]]
            | w # ws \<Rightarrow> (c # w) # ws))"

section \<open>ENUM names\<close>

definition msisdn_to_enum_name :: "string \<Rightarrow> string \<Rightarrow> string" where
  "msisdn_to_enum_name msisdn domain =
     (let clean_msisdn = filter isdigit msisdn;
          reversed_digits = join ''.'' (map (\<lambda>ch. [ch]) (rev clean_msisdn))
      in reversed_digits @ ''.'' @ domain)"

section \<open>Parsing the primary MSISDN and the comma-separated list\<close>

text \<open>The \<open>for m in msisdn_list.split(',')\<close> loop, with \<open>all_msisdns\<close> as accumulator.\<close>

fun parse_loop :: "string list \<Rightarrow> string list \<Rightarrow> string list" where
  "parse_loop all_msisdns [] = all_msisdns"
| "parse_loop all_msisdns (m # ms) =
     (let clean = filter isdigit (strip m)
      in if clean \<noteq> [] \<and> clean \<notin> set all_msisdns
         then parse_loop (all_msisdns @ [clean]) ms
         else parse_loop all_msisdns ms)"

text \<open>\<open>None\<close> and the empty string are both falsy in \<open>if msisdn:\<close>.\<close>

definition parse_msisdn_list :: "string option \<Rightarrow> string option \<Rightarrow> string list" where
  "parse_msisdn_list msisdn msisdn_list =
     (let all_msisdns0 =
            (case msisdn of
               None \<Rightarrow> []
             | Some s \<Rightarrow>
                 if s \<noteq> [] then (let clean = filter isdigit s in if clean \<noteq> [] then [clean] else [])
                 else [])
      in case msisdn_list of
           None \<Rightarrow> all_msisdns0
         | Some l \<Rightarrow> if l \<noteq> [] then parse_loop all_msisdns0 (split CHR '','' l) else all_msisdns0)"

text \<open>The specification's wording of the ENUM name: the digits reversed, one label each.\<close>

fun dotted :: "string \<Rightarrow> string" where
  "dotted [] = []"
| "dotted [d] = [d]"
| "dotted (d # e # ds) = d # CHR ''.'' # dotted (e # ds)"

definition spec_enum_name :: "string \<Rightarrow> string \<Rightarrow> string" where
  "spec_enum_name d domain = dotted (rev d) @ ''.'' @ domain"


section \<open>Formatting\<close>

text \<open>\<open>str(n)\<close> for integers, \<open>repr\<close> of lists and sets of digit strings (no escapes needed).\<close>

definition digit_char :: "nat \<Rightarrow> char" where
  "digit_char n = ''0123456789'' ! (n mod 10)"

fun str_nat :: "nat \<Rightarrow> string" where
  "str_nat n = (if n < 10 then [digit_char n] else str_nat (n div 10) @ [digit_char n])"

declare str_nat.simps [simp del]

definition str_int :: "int \<Rightarrow> string" where
  "str_int i = (if i < 0 then CHR ''-'' # str_nat (nat (- i)) else str_nat (nat i))"

definition str_opt_int :: "int option \<Rightarrow> string" where
  "str_opt_int v = (case v of None \<Rightarrow> ''None'' | Some i \<Rightarrow> str_int i)"

definition str_opt :: "string option \<Rightarrow> string" where
  "str_opt v = (case v of None \<Rightarrow> ''None'' | Some s \<Rightarrow> s)"

definition repr_str :: "string \<Rightarrow> string" where
  "repr_str s = CHR 0x27 # s @ [CHR 0x27]"

definition repr_list :: "string list \<Rightarrow> string" where
  "repr_list xs = ''['' @ join '', '' (map repr_str xs) @ '']''"

definition repr_set :: "string list \<Rightarrow> string" where
  "repr_set xs = (if xs = [] then ''set()'' else ''{'' @ join '', '' (map repr_str xs) @ ''}'')"

section \<open>Configuration, exceptions and the outside world\<close>

text \<open>An endpoint is a configuration dictionary; every key may be absent.\<close>

record endpoint =
  ep_name :: "string option"
  ep_url :: "string option"
  ep_api_key :: "string option"
  ep_sip_domain :: "string option"
  ep_domains :: "string list option"

record enum_client =
  enabled :: bool
  strict_mode :: bool
  naptr_order :: int
  naptr_preference :: int
  naptr_ttl :: int
  endpoints :: "endpoint list"
  log_tool :: bool

datatype exn = ENUMManagementError string | KeyError string | OtherException string

text \<open>\<open>str(e)\<close>\<close>

fun exn_str :: "exn \<Rightarrow> string" where
  "exn_str (ENUMManagementError m) = m"
| "exn_str (KeyError k) = repr_str k"
| "exn_str (OtherException m) = m"

record rrset =
  rr_name :: string
  rr_type :: string
  rr_ttl :: "int option"
  rr_changetype :: string
  rr_records :: "(string \<times> bool) list"

record http_request =
  rq_url :: string
  rq_api_key :: string
  rq_rrsets :: "rrset list"
  rq_timeout :: nat

text \<open>What \<open>requests.patch\<close> does: a response with status code and body, or a \<open>RequestException\<close>.\<close>

datatype http_outcome = Response int string | RequestException string

text \<open>One transport call as a recording stub sees it: the arguments and the returned pair.\<close>

record attempt =
  at_endpoint :: endpoint
  at_zone :: string
  at_rrsets :: "rrset list"
  at_success :: bool
  at_error :: "string option"

text \<open>
  The state threaded through every operation: the state of the HTTP peer, the transport calls
  made so far, the pages requested from the subscriber source, and the log lines written.
\<close>

record 'w env =
  world :: 'w
  attempts :: "attempt list"
  page_requests :: "(nat \<times> nat) list"
  logs :: "(string \<times> string) list"

definition log :: "enum_client \<Rightarrow> string \<Rightarrow> string \<Rightarrow> 'w env \<Rightarrow> 'w env" where
  "log c level message st = (if log_tool c then st\<lparr>logs := logs st @ [(level, message)]\<rparr> else st)"

definition generate_naptr_content :: "enum_client \<Rightarrow> string \<Rightarrow> string \<Rightarrow> string" where
  "generate_naptr_content c msisdn sip_domain =
     (let clean_msisdn = filter isdigit msisdn
      in str_int (naptr_order c) @ '' '' @ str_int (naptr_preference c) @ '' '' @
         [CHR 0x22] @ ''u'' @ [CHR 0x22] @ '' '' @ [CHR 0x22] @ ''E2U+sip'' @ [CHR 0x22] @ '' '' @
         [CHR 0x22] @ ''!^.*$!sip:'' @ clean_msisdn @ ''@'' @ sip_domain @ ''!'' @ [CHR 0x22] @ '' .'')"

text \<open>
  \<open>endpoint['url']\<close> and \<open>endpoint['api_key']\<close> raise \<open>KeyError\<close> before anything is sent.
\<close>

definition make_pdns_request ::
  "('w \<Rightarrow> http_request \<Rightarrow> http_outcome \<times> 'w) \<Rightarrow> endpoint \<Rightarrow> string \<Rightarrow> rrset list \<Rightarrow> 'w env
     \<Rightarrow> (exn + bool \<times> string option) \<times> 'w env" where
  "make_pdns_request patch endpoint zone rrsets st =
     (case ep_url endpoint of
        None \<Rightarrow> (Inl (KeyError ''url''), st)
      | Some u \<Rightarrow>
         (case ep_api_key endpoint of
            None \<Rightarrow> (Inl (KeyError ''api_key''), st)
          | Some k \<Rightarrow>
             (let rq = \<lparr>rq_url = u @ ''/api/v1/servers/localhost/zones/'' @ zone,
                        rq_api_key = k, rq_rrsets = rrsets, rq_timeout = 10\<rparr>;
                  (resp, w') = patch (world st) rq;
                  (success, err) =
                    (case resp of
                       Response status_code text \<Rightarrow>
                         if status_code = 200 \<or> status_code = 204 then (True, None)
                         else (False, Some (''PowerDNS API error: '' @ str_int status_code @ '' - '' @ text))
                     | RequestException e \<Rightarrow> (False, Some (''PowerDNS request failed: '' @ e)))
              in (Inr (success, err),
                  st\<lparr>world := w',
                     attempts := attempts st @
                       [\<lparr>at_endpoint = endpoint, at_zone = zone, at_rrsets = rrsets,
                         at_success = success, at_error = err\<rparr>]\<rparr>))))"

section \<open>Operation results\<close>

datatype status = Disabled | NoMsisdns | Ok | Partial | Error

type_synonym domains_map = "(string \<times> bool \<times> string list) list"

record results =
  r_status :: status
  r_endpoints :: "(string \<times> domains_map) list"
  r_errors :: "string list"

text \<open>The returned dictionary: \<open>{'status': ...}\<close> alone, or the full result.\<close>

datatype op_result = StatusOnly status | Results results

fun get_status :: "op_result \<Rightarrow> status" where
  "get_status (StatusOnly s) = s"
| "get_status (Results r) = r_status r"

text \<open>\<open>result.get('errors')\<close>\<close>

fun get_errors :: "op_result \<Rightarrow> string list option" where
  "get_errors (StatusOnly s) = None"
| "get_errors (Results r) = Some (r_errors r)"

definition endpoint_name :: "endpoint \<Rightarrow> string" where
  "endpoint_name endpoint =
     (case ep_name endpoint of
        Some n \<Rightarrow> n
      | None \<Rightarrow> (case ep_url endpoint of Some u \<Rightarrow> u | None \<Rightarrow> ''unknown''))"

section \<open>create\<close>

definition create_rrset :: "enum_client \<Rightarrow> string \<Rightarrow> string \<Rightarrow> string \<Rightarrow> rrset" where
  "create_rrset c sip_domain domain m =
     \<lparr>rr_name = msisdn_to_enum_name m domain @ ''.'', rr_type = ''NAPTR'',
      rr_ttl = Some (naptr_ttl c), rr_changetype = ''REPLACE'',
      rr_records = [(generate_naptr_content c m sip_domain, False)]\<rparr>"

text \<open>
  The loop over the domains of one endpoint. The entry of the endpoint exists in
  \<open>results['endpoints']\<close> when the loop starts, so the nested assignment is \<open>map_entry\<close>.
  In strict mode the raise discards the local \<open>results\<close> (its status \<open>error\<close> is never seen).
\<close>

fun create_domains ::
  "('w \<Rightarrow> http_request \<Rightarrow> http_outcome \<times> 'w) \<Rightarrow> enum_client \<Rightarrow> endpoint \<Rightarrow> string list
     \<Rightarrow> string list \<Rightarrow> results \<Rightarrow> 'w env \<Rightarrow> (exn + results) \<times> 'w env" where
  "create_domains patch c endpoint all_msisdns [] results st = (Inr results, st)"
| "create_domains patch c endpoint all_msisdns (domain # rest) results st =
     (let sip_domain = (case ep_sip_domain endpoint of Some d \<Rightarrow> d | None \<Rightarrow> []);
          rrsets = map (create_rrset c sip_domain domain) all_msisdns
      in case make_pdns_request patch endpoint domain rrsets st of
           (Inl e, st1) \<Rightarrow> (Inl e, st1)
         | (Inr (success, err), st1) \<Rightarrow>
            (let results1 = results\<lparr>r_endpoints :=
                   AList.map_entry (endpoint_name endpoint)
                     (AList.update domain (success, all_msisdns)) (r_endpoints results)\<rparr>
             in if \<not> success then
                  (let error_detail = endpoint_name endpoint @ ''/'' @ domain @ '': '' @ str_opt err;
                       results2 = results1\<lparr>r_errors := r_errors results1 @ [error_detail]\<rparr>;
                       st2 = log c ''error'' (''ENUM create failed - '' @ error_detail) st1
                   in if strict_mode c
                      then (Inl (ENUMManagementError (''ENUM creation failed: '' @ error_detail)), st2)
                      else create_domains patch c endpoint all_msisdns rest results2 st2)
                else create_domains patch c endpoint all_msisdns rest results1
                       (log c ''info'' (''ENUM entries created on '' @ endpoint_name endpoint @ ''/'' @ domain) st1)))"

fun create_endpoints ::
  "('w \<Rightarrow> http_request \<Rightarrow> http_outcome \<times> 'w) \<Rightarrow> enum_client \<Rightarrow> string list
     \<Rightarrow> endpoint list \<Rightarrow> results \<Rightarrow> 'w env \<Rightarrow> (exn + results) \<times> 'w env" where
  "create_endpoints patch c all_msisdns [] results st = (Inr results, st)"
| "create_endpoints patch c all_msisdns (endpoint # rest) results st =
     (let results1 = results\<lparr>r_endpoints :=
            AList.update (endpoint_name endpoint) [] (r_endpoints results)\<rparr>
      in case create_domains patch c endpoint all_msisdns
                (case ep_domains endpoint of Some ds \<Rightarrow> ds | None \<Rightarrow> []) results1 st of
           (Inl e, st1) \<Rightarrow> (Inl e, st1)
         | (Inr results2, st1) \<Rightarrow> create_endpoints patch c all_msisdns rest results2 st1)"

definition create_enum_entries ::
  "('w \<Rightarrow> http_request \<Rightarrow> http_outcome \<times> 'w) \<Rightarrow> enum_client \<Rightarrow> string option \<Rightarrow> string option
     \<Rightarrow> 'w env \<Rightarrow> (exn + op_result) \<times> 'w env" where
  "create_enum_entries patch c msisdn msisdn_list st =
     (if \<not> enabled c
      then (Inr (StatusOnly Disabled), log c ''debug'' ''ENUM management is disabled, skipping create'' st)
      else
        (let all_msisdns = parse_msisdn_list msisdn msisdn_list
         in if all_msisdns = []
            then (Inr (StatusOnly NoMsisdns), log c ''debug'' ''No MSISDNs provided for ENUM creation'' st)
            else
              (let st1 = log c ''info'' (''Creating ENUM entries for MSISDNs: '' @ repr_list all_msisdns) st;
                   results = \<lparr>r_status = Ok, r_endpoints = [], r_errors = []\<rparr>
               in case create_endpoints patch c all_msisdns (endpoints c) results st1 of
                    (Inl e, st2) \<Rightarrow> (Inl e, st2)
                  | (Inr results1, st2) \<Rightarrow>
                      (Inr (Results (if r_errors results1 \<noteq> []
                                     then results1\<lparr>r_status := Partial\<rparr> else results1)), st2))))"

section \<open>delete\<close>

definition delete_rrset :: "string \<Rightarrow> string \<Rightarrow> rrset" where
  "delete_rrset domain m =
     \<lparr>rr_name = msisdn_to_enum_name m domain @ ''.'', rr_type = ''NAPTR'',
      rr_ttl = None, rr_changetype = ''DELETE'', rr_records = []\<rparr>"

fun delete_domains ::
  "('w \<Rightarrow> http_request \<Rightarrow> http_outcome \<times> 'w) \<Rightarrow> enum_client \<Rightarrow> endpoint \<Rightarrow> string list
     \<Rightarrow> string list \<Rightarrow> results \<Rightarrow> 'w env \<Rightarrow> (exn + results) \<times> 'w env" where
  "delete_domains patch c endpoint all_msisdns [] results st = (Inr results, st)"
| "delete_domains patch c endpoint all_msisdns (domain # rest) results st =
     (let rrsets = map (delete_rrset domain) all_msisdns
      in case make_pdns_request patch endpoint domain rrsets st of
           (Inl e, st1) \<Rightarrow> (Inl e, st1)
         | (Inr (success, err), st1) \<Rightarrow>
            (let results1 = results\<lparr>r_endpoints :=
                   AList.map_entry (endpoint_name endpoint)
                     (AList.update domain (success, all_msisdns)) (r_endpoints results)\<rparr>
             in if \<not> success then
                  (let error_detail = endpoint_name endpoint @ ''/'' @ domain @ '': '' @ str_opt err;
                       results2 = results1\<lparr>r_errors := r_errors results1 @ [error_detail]\<rparr>;
                       st2 = log c ''error'' (''ENUM delete failed - '' @ error_detail) st1
                   in if strict_mode c
                      then (Inl (ENUMManagementError (''ENUM deletion failed: '' @ error_detail)), st2)
                      else delete_domains patch c endpoint all_msisdns rest results2 st2)
                else delete_domains patch c endpoint all_msisdns rest results1
                       (log c ''info'' (''ENUM entries deleted on '' @ endpoint_name endpoint @ ''/'' @ domain) st1)))"

fun delete_endpoints ::
  "('w \<Rightarrow> http_request \<Rightarrow> http_outcome \<times> 'w) \<Rightarrow> enum_client \<Rightarrow> string list
     \<Rightarrow> endpoint list \<Rightarrow> results \<Rightarrow> 'w env \<Rightarrow> (exn + results) \<times> 'w env" where
  "delete_endpoints patch c all_msisdns [] results st = (Inr results, st)"
| "delete_endpoints patch c all_msisdns (endpoint # rest) results st =
     (let results1 = results\<lparr>r_endpoints :=
            AList.update (endpoint_name endpoint) [] (r_endpoints results)\<rparr>
      in case delete_domains patch c endpoint all_msisdns
                (case ep_domains endpoint of Some ds \<Rightarrow> ds | None \<Rightarrow> []) results1 st of
           (Inl e, st1) \<Rightarrow> (Inl e, st1)
         | (Inr results2, st1) \<Rightarrow> delete_endpoints patch c all_msisdns rest results2 st1)"

definition delete_enum_entries ::
  "('w \<Rightarrow> http_request \<Rightarrow> http_outcome \<times> 'w) \<Rightarrow> enum_client \<Rightarrow> string option \<Rightarrow> string option
     \<Rightarrow> 'w env \<Rightarrow> (exn + op_result) \<times> 'w env" where
  "delete_enum_entries patch c msisdn msisdn_list st =
     (if \<not> enabled c
      then (Inr (StatusOnly Disabled), log c ''debug'' ''ENUM management is disabled, skipping delete'' st)
      else
        (let all_msisdns = parse_msisdn_list msisdn msisdn_list
         in if all_msisdns = []
            then (Inr (StatusOnly NoMsisdns), log c ''debug'' ''No MSISDNs provided for ENUM deletion'' st)
            else
              (let st1 = log c ''info'' (''Deleting ENUM entries for MSISDNs: '' @ repr_list all_msisdns) st;
                   results = \<lparr>r_status = Ok, r_endpoints = [], r_errors = []\<rparr>
               in case delete_endpoints patch c all_msisdns (endpoints c) results st1 of
                    (Inl e, st2) \<Rightarrow> (Inl e, st2)
                  | (Inr results1, st2) \<Rightarrow>
                      (Inr (Results (if r_errors results1 \<noteq> []
                                     then results1\<lparr>r_status := Partial\<rparr> else results1)), st2))))"

section \<open>update\<close>

record update_results =
  u_status :: status
  u_deleted :: "string list"
  u_created :: "string list"
  u_errors :: "string list"

datatype update_result = UStatusOnly status | UResults update_results

fun update_status :: "update_result \<Rightarrow> status" where
  "update_status (UStatusOnly s) = s"
| "update_status (UResults r) = u_status r"

text \<open>
  A Python set is a \<^typ>\<open>string set\<close>; the order in which it is iterated is not fixed by the
  language, so it is the parameter \<open>set_iter\<close>. Within one call the same set object is
  iterated each time, hence in the same order.

  The block \<open>if to_delete: ...\<close>: the exception that leaves it (if any), the results, the state.
\<close>

definition update_delete_phase ::
  "('w \<Rightarrow> http_request \<Rightarrow> http_outcome \<times> 'w) \<Rightarrow> (string set \<Rightarrow> string list) \<Rightarrow> enum_client
     \<Rightarrow> string set \<Rightarrow> update_results \<Rightarrow> 'w env \<Rightarrow> exn option \<times> update_results \<times> 'w env" where
  "update_delete_phase patch set_iter c to_delete results st =
     (if to_delete \<noteq> {} then
        (let delete_list = join '','' (set_iter to_delete)
         in case delete_enum_entries patch c None (Some delete_list) st of
              (Inr delete_result, st1) \<Rightarrow>
                (let results1 = results\<lparr>u_deleted := set_iter to_delete\<rparr>
                 in case get_errors delete_result of
                      None \<Rightarrow> (None, results1, st1)
                    | Some es \<Rightarrow>
                        if es \<noteq> [] then (None, results1\<lparr>u_errors := u_errors results1 @ es\<rparr>, st1)
                        else (None, results1, st1))
            | (Inl (ENUMManagementError m), st1) \<Rightarrow>
                (let results1 = results\<lparr>u_errors := u_errors results @ [m]\<rparr>
                 in if strict_mode c
                    then (Some (ENUMManagementError m), results1\<lparr>u_status := Error\<rparr>, st1)
                    else (None, results1, st1))
            | (Inl e, st1) \<Rightarrow> (Some e, results, st1))
      else (None, results, st))"

definition update_create_phase ::
  "('w \<Rightarrow> http_request \<Rightarrow> http_outcome \<times> 'w) \<Rightarrow> (string set \<Rightarrow> string list) \<Rightarrow> enum_client
     \<Rightarrow> string set \<Rightarrow> update_results \<Rightarrow> 'w env \<Rightarrow> exn option \<times> update_results \<times> 'w env" where
  "update_create_phase patch set_iter c to_create results st =
     (if to_create \<noteq> {} then
        (let create_list = join '','' (set_iter to_create)
         in case create_enum_entries patch c None (Some create_list) st of
              (Inr create_result, st1) \<Rightarrow>
                (let results1 = results\<lparr>u_created := set_iter to_create\<rparr>
                 in case get_errors create_result of
                      None \<Rightarrow> (None, results1, st1)
                    | Some es \<Rightarrow>
                        if es \<noteq> [] then (None, results1\<lparr>u_errors := u_errors results1 @ es\<rparr>, st1)
                        else (None, results1, st1))
            | (Inl (ENUMManagementError m), st1) \<Rightarrow>
                (let results1 = results\<lparr>u_errors := u_errors results @ [m]\<rparr>
                 in if strict_mode c
                    then (Some (ENUMManagementError m), results1\<lparr>u_status := Error\<rparr>, st1)
                    else (None, results1, st1))
            | (Inl e, st1) \<Rightarrow> (Some e, results, st1))
      else (None, results, st))"

definition update_enum_entries ::
  "('w \<Rightarrow> http_request \<Rightarrow> http_outcome \<times> 'w) \<Rightarrow> (string set \<Rightarrow> string list) \<Rightarrow> enum_client
     \<Rightarrow> string option \<Rightarrow> string option \<Rightarrow> string option \<Rightarrow> string option
     \<Rightarrow> 'w env \<Rightarrow> (exn + update_result) \<times> 'w env" where
  "update_enum_entries patch set_iter c old_msisdn old_msisdn_list new_msisdn new_msisdn_list st =
     (if \<not> enabled c
      then (Inr (UStatusOnly Disabled), log c ''debug'' ''ENUM management is disabled, skipping update'' st)
      else
        (let old_set = set (parse_msisdn_list old_msisdn old_msisdn_list);
             new_set = set (parse_msisdn_list new_msisdn new_msisdn_list);
             to_delete = old_set - new_set;
             to_create = new_set - old_set;
             st0 = log c ''info'' (''ENUM update: delete '' @ repr_set (set_iter to_delete) @
                                   '', create '' @ repr_set (set_iter to_create)) st;
             results = \<lparr>u_status = Ok, u_deleted = [], u_created = [], u_errors = []\<rparr>
         in case update_delete_phase patch set_iter c to_delete results st0 of
              (Some e, results1, st1) \<Rightarrow> (Inl e, st1)
            | (None, results1, st1) \<Rightarrow>
               (case update_create_phase patch set_iter c to_create results1 st1 of
                  (Some e, results2, st2) \<Rightarrow> (Inl e, st2)
                | (None, results2, st2) \<Rightarrow>
                    (Inr (UResults (if u_errors results2 \<noteq> []
                                    then results2\<lparr>u_status := Partial\<rparr> else results2)), st2))))"

section \<open>Reconciliation\<close>

record subscriber =
  sub_msisdn :: "string option"
  sub_msisdn_list :: "string option"
  sub_ims_subscriber_id :: "int option"

text \<open>
  What \<open>getAllPaginated(IMS_SUBSCRIBER, page, page_size)\<close> does: raises, returns \<open>None\<close>, or
  returns a list. The source is a function of the page index and size: within one sweep every
  index is requested at most once.
\<close>

datatype db_reply = DbRaise exn | DbNone | DbPage "subscriber list"

record sub_entry =
  se_ims_subscriber_id :: "int option"
  se_msisdn :: "string option"
  se_status :: status
  se_errors :: "string list option"
  se_error :: "string option"

record recon_results =
  rc_status :: status
  rc_processed :: nat
  rc_succeeded :: nat
  rc_failed :: nat
  rc_errors :: "string list"
  rc_subscribers :: "sub_entry list"

datatype recon_result = RStatusOnly status | RResults recon_results

text \<open>
  The loop \<open>for sub in subscribers\<close>. \<open>results\<close> lives outside the \<open>try\<close>, so what was
  counted before an exception escapes stays counted.
\<close>

fun reconcile_subscribers ::
  "('w \<Rightarrow> http_request \<Rightarrow> http_outcome \<times> 'w) \<Rightarrow> enum_client \<Rightarrow> subscriber list
     \<Rightarrow> recon_results \<Rightarrow> 'w env \<Rightarrow> exn option \<times> recon_results \<times> 'w env" where
  "reconcile_subscribers patch c [] results st = (None, results, st)"
| "reconcile_subscribers patch c (sub # rest) results st =
     (let results1 = results\<lparr>rc_processed := rc_processed results + 1\<rparr>;
          msisdn = sub_msisdn sub;
          msisdn_list = sub_msisdn_list sub;
          sub_id = sub_ims_subscriber_id sub
      in case create_enum_entries patch c msisdn msisdn_list st of
           (Inr create_result, st1) \<Rightarrow>
             if get_status create_result \<in> {Ok, Disabled, NoMsisdns}
             then reconcile_subscribers patch c rest
                    (results1\<lparr>rc_succeeded := rc_succeeded results1 + 1,
                       rc_subscribers := rc_subscribers results1 @
                         [\<lparr>se_ims_subscriber_id = sub_id, se_msisdn = msisdn, se_status = Ok,
                           se_errors = None, se_error = None\<rparr>]\<rparr>) st1
             else reconcile_subscribers patch c rest
                    (results1\<lparr>rc_failed := rc_failed results1 + 1,
                       rc_subscribers := rc_subscribers results1 @
                         [\<lparr>se_ims_subscriber_id = sub_id, se_msisdn = msisdn, se_status = Partial,
                           se_errors = Some (case get_errors create_result of Some es \<Rightarrow> es | None \<Rightarrow> []),
                           se_error = None\<rparr>]\<rparr>) st1
         | (Inl (ENUMManagementError m), st1) \<Rightarrow>
             reconcile_subscribers patch c rest
               (results1\<lparr>rc_failed := rc_failed results1 + 1,
                  rc_errors := rc_errors results1 @ [''Subscriber '' @ str_opt_int sub_id @ '': '' @ m],
                  rc_subscribers := rc_subscribers results1 @
                    [\<lparr>se_ims_subscriber_id = sub_id, se_msisdn = msisdn, se_status = Error,
                      se_errors = None, se_error = Some m\<rparr>]\<rparr>) st1
         | (Inl e, st1) \<Rightarrow> (Some e, results1, st1))"

text \<open>The \<open>while True\<close> loop over the pages, from page index \<open>page\<close>.\<close>

function reconcile_pages ::
  "('w \<Rightarrow> http_request \<Rightarrow> http_outcome \<times> 'w) \<Rightarrow> enum_client \<Rightarrow> (nat \<Rightarrow> nat \<Rightarrow> db_reply) \<Rightarrow> nat
     \<Rightarrow> recon_results \<Rightarrow> 'w env \<Rightarrow> exn option \<times> recon_results \<times> 'w env" where
  "reconcile_pages patch c getAllPaginated page results st =
     (let page_size = 100;
          st0 = st\<lparr>page_requests := page_requests st @ [(page, page_size)]\<rparr>
      in case getAllPaginated page page_size of
           DbRaise e \<Rightarrow> (Some e, results, st0)
         | DbNone \<Rightarrow> (None, results, st0)
         | DbPage subscribers \<Rightarrow>
             if subscribers = [] then (None, results, st0)
             else
               (case reconcile_subscribers patch c subscribers results st0 of
                  (Some e, results1, st1) \<Rightarrow> (Some e, results1, st1)
                | (None, results1, st1) \<Rightarrow>
                    if page + 1 > 10000
                    then (None, results1, log c ''warning'' ''Reconciliation stopped at page 10000'' st1)
                    else reconcile_pages patch c getAllPaginated (page + 1) results1 st1))"
  by pat_completeness auto
termination
  by (relation "measure (\<lambda>(patch, c, getAllPaginated, page, results, st). 10001 - page)") auto

declare reconcile_pages.simps [simp del]

definition reconcile_all ::
  "('w \<Rightarrow> http_request \<Rightarrow> http_outcome \<times> 'w) \<Rightarrow> enum_client \<Rightarrow> (nat \<Rightarrow> nat \<Rightarrow> db_reply)
     \<Rightarrow> 'w env \<Rightarrow> recon_result \<times> 'w env" where
  "reconcile_all patch c getAllPaginated st =
     (if \<not> enabled c
      then (RStatusOnly Disabled, log c ''info'' ''ENUM management is disabled, skipping reconciliation'' st)
      else
        (let st1 = log c ''info'' ''Starting ENUM reconciliation'' st;
             results = \<lparr>rc_status = Ok, rc_processed = 0, rc_succeeded = 0, rc_failed = 0,
                        rc_errors = [], rc_subscribers = []\<rparr>;
             (raised, results1, st2) = reconcile_pages patch c getAllPaginated 0 results st1;
             (results2, st3) =
               (case raised of
                  Some e \<Rightarrow>
                    (results1\<lparr>rc_status := Error,
                       rc_errors := rc_errors results1 @ [''Reconciliation failed: '' @ exn_str e]\<rparr>,
                     log c ''error'' (''ENUM reconciliation failed: '' @ exn_str e) st2)
                | None \<Rightarrow> (results1, st2));
             results3 = (if rc_failed results2 > 0 then results2\<lparr>rc_status := Partial\<rparr> else results2);
             st4 = log c ''info'' (''ENUM reconciliation complete: '' @ str_nat (rc_processed results3) @
                     '' processed, '' @ str_nat (rc_succeeded results3) @ '' succeeded, '' @
                     str_nat (rc_failed results3) @ '' failed'') st3
         in (RResults results3, st4)))"

section \<open>Notions used to state the properties\<close>




definition digit_string :: "string \<Rightarrow> bool" where
  "digit_string x = (x \<noteq> [] \<and> (\<forall>ch\<in>set x. isdigit ch))"

text \<open>What the primary MSISDN contributes to the parsed list.\<close>

definition primary_part :: "string option \<Rightarrow> string list" where
  "primary_part msisdn =
     (case msisdn of None \<Rightarrow> [] | Some s \<Rightarrow> if filter isdigit s \<noteq> [] then [filter isdigit s] else [])"

text \<open>The (endpoint, domain) pairs in configured order.\<close>

definition domains_of :: "endpoint \<Rightarrow> string list" where
  "domains_of endpoint = (case ep_domains endpoint of Some ds \<Rightarrow> ds | None \<Rightarrow> [])"

definition pairs_of :: "endpoint list \<Rightarrow> (endpoint \<times> string) list" where
  "pairs_of eps = concat (map (\<lambda>e. map (Pair e) (domains_of e)) eps)"

definition at_pair :: "attempt \<Rightarrow> endpoint \<times> string" where
  "at_pair a = (at_endpoint a, at_zone a)"

text \<open>The formatted error string \<open><endpoint>/<domain>: <detail>\<close> of a recorded attempt.\<close>

definition error_detail :: "attempt \<Rightarrow> string" where
  "error_detail a = endpoint_name (at_endpoint a) @ ''/'' @ at_zone a @ '': '' @ str_opt (at_error a)"

definition sip_of :: "endpoint \<Rightarrow> string" where
  "sip_of endpoint = (case ep_sip_domain endpoint of Some d \<Rightarrow> d | None \<Rightarrow> [])"

definition create_rrsets :: "enum_client \<Rightarrow> string list \<Rightarrow> endpoint \<Rightarrow> string \<Rightarrow> rrset list" where
  "create_rrsets c all_msisdns endpoint domain = map (create_rrset c (sip_of endpoint) domain) all_msisdns"

definition delete_rrsets :: "string list \<Rightarrow> endpoint \<Rightarrow> string \<Rightarrow> rrset list" where
  "delete_rrsets all_msisdns endpoint domain = map (delete_rrset domain) all_msisdns"

definition wf_endpoint :: "endpoint \<Rightarrow> bool" where
  "wf_endpoint e = (ep_url e \<noteq> None \<and> ep_api_key e \<noteq> None)"

text \<open>
  How the transport calls \<open>new\<close> of one run over \<open>pairs\<close> relate to its outcome: \<open>errs0\<close> and
  \<open>status0\<close> are the error list and status at the start, \<open>pfx\<close> the prefix of the raised message,
  \<open>mk\<close> the record sets sent for a pair.
\<close>

definition trace_post ::
  "bool \<Rightarrow> string \<Rightarrow> (endpoint \<Rightarrow> string \<Rightarrow> rrset list) \<Rightarrow> (endpoint \<times> string) list
     \<Rightarrow> string list \<Rightarrow> status \<Rightarrow> attempt list \<Rightarrow> exn + results \<Rightarrow> bool" where
  "trace_post strict pfx mk pairs errs0 status0 new out =
     (map at_pair new = take (length new) pairs \<and>
      list_all (\<lambda>a. at_rrsets a = mk (at_endpoint a) (at_zone a)) new \<and>
      list_all (\<lambda>a. \<not> at_success a \<longrightarrow> at_error a \<noteq> None) new \<and>
      list_all (\<lambda>a. wf_endpoint (at_endpoint a)) new \<and>
      (case out of
         Inr res \<Rightarrow>
           length new = length pairs \<and> r_status res = status0 \<and>
           r_errors res = errs0 @ map error_detail (filter (\<lambda>a. \<not> at_success a) new) \<and>
           (strict \<longrightarrow> list_all at_success new)
       | Inl e \<Rightarrow>
           (case e of
              ENUMManagementError m \<Rightarrow>
                strict \<and> new \<noteq> [] \<and> \<not> at_success (last new) \<and> list_all at_success (butlast new) \<and>
                m = pfx @ error_detail (last new)
            | KeyError k \<Rightarrow>
                length new < length pairs \<and> \<not> wf_endpoint (fst (pairs ! length new)) \<and>
                (strict \<longrightarrow> list_all at_success new)
            | OtherException m \<Rightarrow> False)))"

text \<open>The last step of create and delete: an accumulated error turns the status into \<open>partial\<close>.\<close>

definition finish :: "exn + results \<Rightarrow> exn + op_result" where
  "finish out =
     (case out of
        Inl e \<Rightarrow> Inl e
      | Inr res \<Rightarrow> Inr (Results (if r_errors res \<noteq> [] then res\<lparr>r_status := Partial\<rparr> else res)))"

section \<open>Concrete configurations for the examples\<close>

definition demo_endpoint :: endpoint where
  "demo_endpoint =
     \<lparr>ep_name = Some ''pdns1'', ep_url = Some ''http://pdns1:8081'', ep_api_key = Some ''secret'',
      ep_sip_domain = Some ''ims.example.org'', ep_domains = Some [''e164.arpa'', ''e164.example'']\<rparr>"

definition demo_client :: "bool \<Rightarrow> bool \<Rightarrow> endpoint list \<Rightarrow> enum_client" where
  "demo_client en strict eps =
     \<lparr>enabled = en, strict_mode = strict, naptr_order = 10, naptr_preference = 10, naptr_ttl = 3600,
      endpoints = eps, log_tool = True\<rparr>"

definition failing_patch :: "unit \<Rightarrow> http_request \<Rightarrow> http_outcome \<times> unit" where
  "failing_patch w rq = (RequestException ''timed out'', w)"

definition ok_patch :: "unit \<Rightarrow> http_request \<Rightarrow> http_outcome \<times> unit" where
  "ok_patch w rq = (Response 204 [], w)"

definition env0 :: "unit env" where
  "env0 = \<lparr>world = (), attempts = [], page_requests = [], logs = []\<rparr>"

definition failed_attempt :: "string \<Rightarrow> rrset list \<Rightarrow> attempt" where
  "failed_attempt zone rrsets =
     \<lparr>at_endpoint = demo_endpoint, at_zone = zone, at_rrsets = rrsets, at_success = False,
      at_error = Some ''PowerDNS request failed: timed out''\<rparr>"

definition demo_partial :: results where
  "demo_partial =
     \<lparr>r_status = Partial,
      r_endpoints = [(''pdns1'', [(''e164.arpa'', False, [''4917'']), (''e164.example'', False, [''4917''])])],
      r_errors = [''pdns1/e164.arpa: PowerDNS request failed: timed out'',
                  ''pdns1/e164.example: PowerDNS request failed: timed out'']\<rparr>"

text \<open>An iteration order for the subsets of the three numbers used in the examples.\<close>

definition demo_iter :: "string set \<Rightarrow> string list" where
  "demo_iter S = filter (\<lambda>x. x \<in> S) [''111'', ''222'', ''333'']"

section \<open>Notions used to state the properties of the reconciliation sweep\<close>

text \<open>
  Modelled from the spec: the subscriber source (\<open>getAllPaginated\<close> of the database module,
  which is not among the sources), as section 6 describes it: page \<open>page\<close> of a fixed ordered
  population in batches of \<open>page_size\<close>, empty past the end.
\<close>

definition paged_source :: "subscriber list \<Rightarrow> nat \<Rightarrow> nat \<Rightarrow> db_reply" where
  "paged_source subs page page_size = DbPage (take page_size (drop (page * page_size) subs))"

text \<open>\<open>result.get('processed')\<close>, \<open>result.get('failed')\<close>, \<open>result.get('status')\<close>\<close>

fun recon_processed :: "recon_result \<Rightarrow> nat option" where
  "recon_processed (RStatusOnly s) = None"
| "recon_processed (RResults r) = Some (rc_processed r)"

fun recon_failed :: "recon_result \<Rightarrow> nat option" where
  "recon_failed (RStatusOnly s) = None"
| "recon_failed (RResults r) = Some (rc_failed r)"

fun recon_status :: "recon_result \<Rightarrow> status" where
  "recon_status (RStatusOnly s) = s"
| "recon_status (RResults r) = rc_status r"

fun recon_errors :: "recon_result \<Rightarrow> string list" where
  "recon_errors (RStatusOnly s) = []"
| "recon_errors (RResults r) = rc_errors r"

definition entry_key :: "sub_entry \<Rightarrow> int option \<times> string option" where
  "entry_key e = (se_ims_subscriber_id e, se_msisdn e)"

definition sub_key :: "subscriber \<Rightarrow> int option \<times> string option" where
  "sub_key s = (sub_ims_subscriber_id s, sub_msisdn s)"

text \<open>The line the sweep appends to its error list for a subscriber whose create call raised.\<close>

definition entry_error_line :: "sub_entry \<Rightarrow> string" where
  "entry_error_line e = ''Subscriber '' @ str_opt_int (se_ims_subscriber_id e) @ '': '' @ str_opt (se_error e)"

text \<open>
  What processing the subscribers \<open>subs\<close> without an escaping exception does to the results,
  with \<open>new\<close> the transport calls made meanwhile.
\<close>

definition sweep_post ::
  "bool \<Rightarrow> subscriber list \<Rightarrow> recon_results \<Rightarrow> recon_results \<Rightarrow> attempt list \<Rightarrow> bool" where
  "sweep_post strict subs res res' new =
     (\<exists>ents.
        rc_subscribers res' = rc_subscribers res @ ents \<and>
        rc_errors res' = rc_errors res @ map entry_error_line (filter (\<lambda>e. se_status e = Error) ents) \<and>
        rc_status res' = rc_status res \<and>
        rc_processed res' = rc_processed res + length subs \<and>
        rc_failed res' = rc_failed res + length (filter (\<lambda>e. se_status e \<noteq> Ok) ents) \<and>
        rc_succeeded res' = rc_succeeded res + length (filter (\<lambda>e. se_status e = Ok) ents) \<and>
        map entry_key ents = map sub_key subs \<and>
        list_all (\<lambda>e. se_status e = Error \<longrightarrow> se_error e \<noteq> None \<and> strict) ents \<and>
        (strict \<longrightarrow> list_all (\<lambda>e. se_status e = Ok \<or> se_status e = Error) ents) \<and>
        (list_ex (\<lambda>a. \<not> at_success a) new \<longleftrightarrow> list_ex (\<lambda>e. se_status e \<noteq> Ok) ents))"

section \<open>Concrete subscribers and sources for the examples\<close>

definition demo_sub :: subscriber where
  "demo_sub = \<lparr>sub_msisdn = Some ''4917'', sub_msisdn_list = None, sub_ims_subscriber_id = Some 37\<rparr>"

definition quiet_sub :: subscriber where
  "quiet_sub = \<lparr>sub_msisdn = None, sub_msisdn_list = None, sub_ims_subscriber_id = Some 1\<rparr>"

definition endless_source :: "nat \<Rightarrow> nat \<Rightarrow> db_reply" where
  "endless_source page page_size = DbPage [quiet_sub]"

definition failing_source :: "nat \<Rightarrow> nat \<Rightarrow> db_reply" where
  "failing_source page page_size =
     (if page = 0 then DbPage [demo_sub] else DbRaise (OtherException ''database unreachable''))"

definition big_population :: "subscriber list" where
  "big_population = demo_sub # replicate 1000100 quiet_sub"

section \<open>Notions used to state what update does\<close>

text \<open>The (endpoint, domain) pairs a sub-call on the set \<open>S\<close> goes through: none when it is empty.\<close>

definition calls_for :: "string set \<Rightarrow> endpoint list \<Rightarrow> (endpoint \<times> string) list" where
  "calls_for S eps = (if S = {} then [] else pairs_of eps)"

text \<open>
  How a run over \<open>pairs\<close> with transport calls \<open>new\<close> ends in the exception \<open>e\<close>: a strict-mode
  failure after a failed attempt, or a \<open>KeyError\<close> at the first pair not attempted.
\<close>

definition phase_aborted :: "bool \<Rightarrow> (endpoint \<times> string) list \<Rightarrow> attempt list \<Rightarrow> exn \<Rightarrow> bool" where
  "phase_aborted strict pairs new e =
     ((\<exists>m. e = ENUMManagementError m \<and> strict \<and> new \<noteq> [] \<and> \<not> at_success (last new)) \<or>
      (\<exists>k. e = KeyError k \<and> length new < length pairs \<and> \<not> wf_endpoint (fst (pairs ! length new))))"

definition ok_attempt :: "string \<Rightarrow> rrset list \<Rightarrow> attempt" where
  "ok_attempt zone rrsets =
     \<lparr>at_endpoint = demo_endpoint, at_zone = zone, at_rrsets = rrsets, at_success = True, at_error = None\<rparr>"

section \<open>Properties of the codec and the normalizer\<close>

lemma join_singletons: "join ''.'' (map (\<lambda>ch. [ch]) xs) = dotted xs"
  by (induction xs rule: dotted.induct) auto

lemma filter_isdigit_id: "\<forall>ch\<in>set d. isdigit ch \<Longrightarrow> filter isdigit d = d"
  by (induction d) auto

text \<open>
  C6 (amended). For every digit-only string \<open>d\<close> and every domain, the ENUM name is the
  reverse of the digits of \<open>d\<close> joined with dots, followed by a dot and the domain unchanged.
  The number \<open>491721234567\<close> has twelve digits, so under \<open>e164.arpa\<close> its name is
  \<open>7.6.5.4.3.2.1.2.7.1.9.4.e164.arpa\<close>.
\<close>

theorem enum_name_digits:
  "((\<forall>ch\<in>set d. isdigit ch) \<longrightarrow> msisdn_to_enum_name d domain = spec_enum_name d domain) \<and>
   msisdn_to_enum_name ''491721234567'' ''e164.arpa'' = ''7.6.5.4.3.2.1.2.7.1.9.4.e164.arpa''"
proof
  show "(\<forall>ch\<in>set d. isdigit ch) \<longrightarrow> msisdn_to_enum_name d domain = spec_enum_name d domain"
    by (simp add: msisdn_to_enum_name_def spec_enum_name_def join_singletons filter_isdigit_id)
  show "msisdn_to_enum_name ''491721234567'' ''e164.arpa'' = ''7.6.5.4.3.2.1.2.7.1.9.4.e164.arpa''"
    by (simp add: msisdn_to_enum_name_def isdigit_def)
qed

theorem enum_name_digits_witness:
  "list_all isdigit ''491721234567'' \<and>
   msisdn_to_enum_name ''491721234567'' ''e164.arpa'' = spec_enum_name ''491721234567'' ''e164.arpa'' \<and>
   spec_enum_name ''491721234567'' ''e164.arpa'' = ''7.6.5.4.3.2.1.2.7.1.9.4.e164.arpa''"
proof -
  have d: "\<forall>ch\<in>set ''491721234567''. isdigit ch"
    by (simp add: isdigit_def)
  have s: "spec_enum_name ''491721234567'' ''e164.arpa'' = ''7.6.5.4.3.2.1.2.7.1.9.4.e164.arpa''"
    by (simp add: spec_enum_name_def)
  from enum_name_digits [of "''491721234567''" "''e164.arpa''"] d s show ?thesis
    by (simp add: list_all_iff)
qed

text \<open>The example as the claim gives it has eleven labels and is not what the function returns.\<close>

theorem enum_name_example_counterexample:
  "msisdn_to_enum_name ''491721234567'' ''e164.arpa'' \<noteq> ''7.6.5.4.3.2.1.7.2.9.4.e164.arpa''"
  by (simp add: msisdn_to_enum_name_def isdigit_def)





lemma digit_string_filter: "filter isdigit s \<noteq> [] \<Longrightarrow> digit_string (filter isdigit s)"
  by (simp add: digit_string_def)

lemma parse_loop_digits:
  "list_all digit_string acc \<Longrightarrow> list_all digit_string (parse_loop acc ms)"
proof (induction ms arbitrary: acc)
  case Nil
  then show ?case by simp
next
  case (Cons m ms)
  show ?case
  proof (cases "filter isdigit (strip m) \<noteq> [] \<and> filter isdigit (strip m) \<notin> set acc")
    case True
    then have "list_all digit_string (acc @ [filter isdigit (strip m)])"
      using Cons.prems digit_string_filter [of "strip m"] by simp
    from Cons.IH [OF this] True show ?thesis by (simp add: Let_def)
  next
    case False
    with Cons.IH [OF Cons.prems] show ?thesis by (auto simp: Let_def)
  qed
qed

lemma parse_msisdn_list_alt:
  "parse_msisdn_list msisdn msisdn_list =
     (case msisdn_list of
        None \<Rightarrow> primary_part msisdn
      | Some l \<Rightarrow> if l \<noteq> [] then parse_loop (primary_part msisdn) (split CHR '','' l)
                  else primary_part msisdn)"
  by (cases msisdn; cases msisdn_list) (auto simp: parse_msisdn_list_def primary_part_def Let_def)

lemma parse_initial:
  "parse_msisdn_list msisdn msisdn_list = primary_part msisdn \<or>
   (\<exists>l. parse_msisdn_list msisdn msisdn_list = parse_loop (primary_part msisdn) (split CHR '','' l))"
  unfolding parse_msisdn_list_alt by (cases msisdn_list) auto


lemma parse_digit_strings: "list_all digit_string (parse_msisdn_list msisdn msisdn_list)"
proof -
  have "list_all digit_string (primary_part msisdn)"
    by (auto simp: primary_part_def digit_string_def split: option.splits)
  with parse_initial [of msisdn msisdn_list] parse_loop_digits [of "primary_part msisdn"]
  show ?thesis by auto
qed













text \<open>Characters beyond ASCII: the superscript three is kept, the no-break space is stripped.\<close>

lemma parse_latin1_example:
  "parse_msisdn_list (Some []) (Some [CHR 0xA0, CHR ''1'', CHR ''2'', CHR 0xA0, CHR '','', CHR 0xB3]) =
     [''12'', [CHR 0xB3]]"
  by (simp add: parse_msisdn_list_def isdigit_def isspace_def strip_def Let_def)

lemma enum_name_latin1_example:
  "msisdn_to_enum_name [CHR ''+'', CHR 0xB2] ''e164.arpa'' = CHR 0xB2 # ''.e164.arpa''"
  by (simp add: msisdn_to_enum_name_def isdigit_def)

section \<open>The disabled engine\<close>

text \<open>
  C8. With the enabled flag false, create, delete and update each return status \<open>disabled\<close>
  whatever their inputs, and the state is changed by one debug log line only: no transport call
  is made and the HTTP peer is untouched. The check comes before parsing and before the
  endpoints are looked at, so the result does not depend on them.
\<close>

theorem disabled_short_circuit:
  "\<not> enabled c \<Longrightarrow>
     create_enum_entries patch c msisdn msisdn_list st =
       (Inr (StatusOnly Disabled), log c ''debug'' ''ENUM management is disabled, skipping create'' st) \<and>
     delete_enum_entries patch c msisdn msisdn_list st =
       (Inr (StatusOnly Disabled), log c ''debug'' ''ENUM management is disabled, skipping delete'' st) \<and>
     update_enum_entries patch set_iter c old_msisdn old_msisdn_list new_msisdn new_msisdn_list st =
       (Inr (UStatusOnly Disabled), log c ''debug'' ''ENUM management is disabled, skipping update'' st) \<and>
     attempts (snd (create_enum_entries patch c msisdn msisdn_list st)) = attempts st \<and>
     attempts (snd (delete_enum_entries patch c msisdn msisdn_list st)) = attempts st \<and>
     attempts (snd (update_enum_entries patch set_iter c old_msisdn old_msisdn_list new_msisdn new_msisdn_list st))
       = attempts st \<and>
     world (snd (create_enum_entries patch c msisdn msisdn_list st)) = world st \<and>
     world (snd (delete_enum_entries patch c msisdn msisdn_list st)) = world st \<and>
     world (snd (update_enum_entries patch set_iter c old_msisdn old_msisdn_list new_msisdn new_msisdn_list st))
       = world st"
  by (simp add: create_enum_entries_def delete_enum_entries_def update_enum_entries_def log_def)

theorem disabled_short_circuit_witness:
  "\<not> enabled (demo_client False True [demo_endpoint]) \<and>
   fst (create_enum_entries failing_patch (demo_client False True [demo_endpoint])
          (Some ''4917'') (Some ''4918,4919'') env0) = Inr (StatusOnly Disabled) \<and>
   fst (delete_enum_entries failing_patch (demo_client False True [demo_endpoint])
          (Some ''4917'') (Some ''4918,4919'') env0) = Inr (StatusOnly Disabled) \<and>
   fst (update_enum_entries failing_patch demo_iter (demo_client False True [demo_endpoint])
          (Some ''4917'') None (Some ''4918'') None env0) = Inr (UStatusOnly Disabled) \<and>
   attempts (snd (create_enum_entries failing_patch (demo_client False True [demo_endpoint])
          (Some ''4917'') (Some ''4918,4919'') env0)) = [] \<and>
   attempts (snd (delete_enum_entries failing_patch (demo_client False True [demo_endpoint])
          (Some ''4917'') (Some ''4918,4919'') env0)) = [] \<and>
   attempts (snd (update_enum_entries failing_patch demo_iter (demo_client False True [demo_endpoint])
          (Some ''4917'') None (Some ''4918'') None env0)) = []"
proof -
  have d: "\<not> enabled (demo_client False True [demo_endpoint])"
    by (simp add: demo_client_def)
  have e: "attempts env0 = []"
    by (simp add: env0_def)
  from disabled_short_circuit [OF d, of failing_patch "Some ''4917''" "Some ''4918,4919''" env0 demo_iter
      "Some ''4917''" None "Some ''4918''" None] d e
  show ?thesis by (simp add: log_def)
qed

section \<open>Transport calls and outcomes of create and delete\<close>

lemma attempts_log [simp]: "attempts (log c lv msg st) = attempts st"
  and page_requests_log [simp]: "page_requests (log c lv msg st) = page_requests st"
  and world_log [simp]: "world (log c lv msg st) = world st"
  by (simp_all add: log_def)

lemma make_pdns_request_cases:
  assumes "make_pdns_request patch ep d rr st = (out, st')"
  shows "(\<exists>k. out = Inl (KeyError k) \<and> st' = st \<and> \<not> wf_endpoint ep) \<or>
         (\<exists>succ err. out = Inr (succ, err) \<and>
            attempts st' = attempts st @
              [\<lparr>at_endpoint = ep, at_zone = d, at_rrsets = rr, at_success = succ, at_error = err\<rparr>] \<and>
            page_requests st' = page_requests st \<and> (\<not> succ \<longrightarrow> err \<noteq> None) \<and> wf_endpoint ep)"
  using assms
  by (auto simp: make_pdns_request_def wf_endpoint_def Let_def
           split: option.splits prod.splits http_outcome.splits if_splits)

lemma trace_post_Nil_Inr:
  "r_status res = s0 \<Longrightarrow> r_errors res = e0 \<Longrightarrow> trace_post strict pfx mk [] e0 s0 [] (Inr res)"
  by (simp add: trace_post_def)

lemma trace_post_KeyError:
  "\<not> wf_endpoint ep \<Longrightarrow> trace_post strict pfx mk ((ep, d) # ps) e0 s0 [] (Inl (KeyError k))"
  by (simp add: trace_post_def)

lemma trace_post_abort:
  assumes "strict" "at_pair a = p" "at_rrsets a = mk (at_endpoint a) (at_zone a)"
    "\<not> at_success a" "at_error a \<noteq> None" "m = pfx @ error_detail a"
    "wf_endpoint (at_endpoint a)"
  shows "trace_post strict pfx mk (p # ps) e0 s0 [a] (Inl (ENUMManagementError m))"
  using assms by (simp add: trace_post_def)

lemma trace_post_Cons_ok:
  assumes "trace_post strict pfx mk ps e0 s0 new out"
    and "at_pair a = p" "at_rrsets a = mk (at_endpoint a) (at_zone a)" "at_success a"
    "wf_endpoint (at_endpoint a)"
  shows "trace_post strict pfx mk (p # ps) e0 s0 (a # new) out"
  using assms
  by (cases new) (auto simp: trace_post_def split: sum.splits exn.splits)

lemma trace_post_Cons_fail:
  assumes "trace_post strict pfx mk ps (e0 @ [error_detail a]) s0 new out"
    and "\<not> strict"
    and "at_pair a = p" "at_rrsets a = mk (at_endpoint a) (at_zone a)" "\<not> at_success a"
    "at_error a \<noteq> None" "wf_endpoint (at_endpoint a)"
  shows "trace_post strict pfx mk (p # ps) e0 s0 (a # new) out"
  using assms
  by (cases new) (auto simp: trace_post_def split: sum.splits exn.splits)

lemma create_domains_trace:
  "create_domains patch c ep all ds res st = (out, st') \<Longrightarrow>
     \<exists>new. attempts st' = attempts st @ new \<and> page_requests st' = page_requests st \<and>
       trace_post (strict_mode c) ''ENUM creation failed: '' (create_rrsets c all)
         (map (Pair ep) ds) (r_errors res) (r_status res) new out"
proof (induction ds arbitrary: res st)
  case Nil
  then show ?case by (auto intro: trace_post_Nil_Inr)
next
  case (Cons d ds)
  let ?rr = "create_rrsets c all ep d"
  obtain o1 st1 where mk: "make_pdns_request patch ep d ?rr st = (o1, st1)"
    by (cases "make_pdns_request patch ep d ?rr st")
  from make_pdns_request_cases [OF mk] show ?case
  proof (elim disjE exE conjE)
    fix k
    assume "o1 = Inl (KeyError k)" "st1 = st" "\<not> wf_endpoint ep"
    with Cons.prems mk show ?thesis
      by (auto simp: create_rrsets_def sip_of_def intro: trace_post_KeyError)
  next
    fix succ err
    let ?a = "\<lparr>at_endpoint = ep, at_zone = d, at_rrsets = ?rr, at_success = succ, at_error = err\<rparr>"
    assume o1: "o1 = Inr (succ, err)"
      and at: "attempts st1 = attempts st @ [?a]"
      and pr: "page_requests st1 = page_requests st"
      and er: "\<not> succ \<longrightarrow> err \<noteq> None"
      and wf: "wf_endpoint ep"
    have det: "error_detail ?a = endpoint_name ep @ ''/'' @ d @ '': '' @ str_opt err"
      by (simp add: error_detail_def)
    show ?thesis
    proof (cases succ)
      case True
      with Cons.prems mk o1 obtain res1 st2 where
        rec: "create_domains patch c ep all ds res1 st2 = (out, st')"
        and r1: "r_errors res1 = r_errors res" "r_status res1 = r_status res"
        and s2: "attempts st2 = attempts st1" "page_requests st2 = page_requests st1"
        by (auto simp: create_rrsets_def sip_of_def Let_def)
      from Cons.IH [OF rec] obtain new where
        n: "attempts st' = attempts st2 @ new" "page_requests st' = page_requests st2"
        "trace_post (strict_mode c) ''ENUM creation failed: '' (create_rrsets c all)
           (map (Pair ep) ds) (r_errors res1) (r_status res1) new out"
        by blast
      have "trace_post (strict_mode c) ''ENUM creation failed: '' (create_rrsets c all)
           (map (Pair ep) (d # ds)) (r_errors res) (r_status res) (?a # new) out"
        using trace_post_Cons_ok [OF n(3) [unfolded r1], of ?a "(ep, d)"] True wf
        by (simp add: at_pair_def)
      with n s2 at pr show ?thesis by auto
    next
      case False
      show ?thesis
      proof (cases "strict_mode c")
        case True
        with False Cons.prems mk o1 have
          out: "out = Inl (ENUMManagementError (''ENUM creation failed: '' @ error_detail ?a))"
          and s: "attempts st' = attempts st1" "page_requests st' = page_requests st1"
          by (auto simp: create_rrsets_def sip_of_def error_detail_def Let_def)
        have "trace_post (strict_mode c) ''ENUM creation failed: '' (create_rrsets c all)
           (map (Pair ep) (d # ds)) (r_errors res) (r_status res) [?a] out"
          unfolding out list.map
          by (rule trace_post_abort) (use True False er wf in \<open>simp_all add: at_pair_def\<close>)
        with s at pr show ?thesis by auto
      next
        case nstrict: False
        with False Cons.prems mk o1 obtain res1 st2 where
          rec: "create_domains patch c ep all ds res1 st2 = (out, st')"
          and r1: "r_errors res1 = r_errors res @ [error_detail ?a]" "r_status res1 = r_status res"
          and s2: "attempts st2 = attempts st1" "page_requests st2 = page_requests st1"
          by (auto simp: create_rrsets_def sip_of_def error_detail_def Let_def)
        from Cons.IH [OF rec] obtain new where
          n: "attempts st' = attempts st2 @ new" "page_requests st' = page_requests st2"
          "trace_post (strict_mode c) ''ENUM creation failed: '' (create_rrsets c all)
             (map (Pair ep) ds) (r_errors res1) (r_status res1) new out"
          by blast
        have "trace_post (strict_mode c) ''ENUM creation failed: '' (create_rrsets c all)
             (map (Pair ep) (d # ds)) (r_errors res) (r_status res) (?a # new) out"
          using trace_post_Cons_fail [OF n(3) [unfolded r1], of "(ep, d)"] False nstrict er wf
          by (simp add: at_pair_def)
        with n s2 at pr show ?thesis by auto
      qed
    qed
  qed
qed

lemma trace_post_length: "trace_post strict pfx mk ps e0 s0 new out \<Longrightarrow> length new \<le> length ps"
proof -
  assume "trace_post strict pfx mk ps e0 s0 new out"
  then have "map at_pair new = take (length new) ps" by (simp add: trace_post_def)
  then have "length (map at_pair new) = length (take (length new) ps)" by simp
  then show ?thesis by simp
qed

lemma trace_post_append:
  assumes 1: "trace_post strict pfx mk ps1 e0 s0 new1 (Inr res1)"
    and 2: "trace_post strict pfx mk ps2 (r_errors res1) (r_status res1) new2 out"
  shows "trace_post strict pfx mk (ps1 @ ps2) e0 s0 (new1 @ new2) out"
proof -
  from 1 have l1: "length new1 = length ps1" and m1: "map at_pair new1 = ps1"
    and a1: "list_all (\<lambda>a. at_rrsets a = mk (at_endpoint a) (at_zone a)) new1"
    and b1: "list_all (\<lambda>a. \<not> at_success a \<longrightarrow> at_error a \<noteq> None) new1"
    and w1: "list_all (\<lambda>a. wf_endpoint (at_endpoint a)) new1"
    and e1: "r_errors res1 = e0 @ map error_detail (filter (\<lambda>a. \<not> at_success a) new1)"
    and s1: "r_status res1 = s0" and st1: "strict \<longrightarrow> list_all at_success new1"
    by (simp_all add: trace_post_def)
  from 2 have m2: "map at_pair new2 = take (length new2) ps2"
    and a2: "list_all (\<lambda>a. at_rrsets a = mk (at_endpoint a) (at_zone a)) new2"
    and b2: "list_all (\<lambda>a. \<not> at_success a \<longrightarrow> at_error a \<noteq> None) new2"
    and w2: "list_all (\<lambda>a. wf_endpoint (at_endpoint a)) new2"
    by (simp_all add: trace_post_def)
  have m: "map at_pair (new1 @ new2) = take (length (new1 @ new2)) (ps1 @ ps2)"
    using m1 m2 l1 by simp
  have a: "list_all (\<lambda>a. at_rrsets a = mk (at_endpoint a) (at_zone a)) (new1 @ new2)"
    using a1 a2 by simp
  have b: "list_all (\<lambda>a. \<not> at_success a \<longrightarrow> at_error a \<noteq> None) (new1 @ new2)"
    using b1 b2 by simp
  have w: "list_all (\<lambda>a. wf_endpoint (at_endpoint a)) (new1 @ new2)"
    using w1 w2 by simp
  show ?thesis
  proof (cases out)
    case (Inr res)
    with 2 have "length new2 = length ps2" "r_status res = r_status res1"
      "r_errors res = r_errors res1 @ map error_detail (filter (\<lambda>a. \<not> at_success a) new2)"
      "strict \<longrightarrow> list_all at_success new2"
      by (simp_all add: trace_post_def)
    with Inr m a b w l1 e1 s1 st1 show ?thesis
      by (simp add: trace_post_def)
  next
    case (Inl e)
    show ?thesis
    proof (cases e)
      case (ENUMManagementError msg)
      with Inl 2 have "strict" "new2 \<noteq> []" "\<not> at_success (last new2)"
        "list_all at_success (butlast new2)" "msg = pfx @ error_detail (last new2)"
        by (simp_all add: trace_post_def)
      with Inl ENUMManagementError m a b w st1 show ?thesis
        by (simp add: trace_post_def butlast_append)
    next
      case (KeyError k)
      with Inl 2 have "length new2 < length ps2" "\<not> wf_endpoint (fst (ps2 ! length new2))"
        "strict \<longrightarrow> list_all at_success new2"
        by (simp_all add: trace_post_def)
      with Inl KeyError m a b w st1 l1 show ?thesis
        by (simp add: trace_post_def nth_append)
    next
      case (OtherException msg)
      with Inl 2 show ?thesis by (simp add: trace_post_def)
    qed
  qed
qed

lemma trace_post_stop:
  assumes 1: "trace_post strict pfx mk ps1 e0 s0 new1 (Inl e)"
  shows "trace_post strict pfx mk (ps1 @ ps2) e0 s0 new1 (Inl e)"
proof -
  from trace_post_length [OF 1] have "take (length new1) (ps1 @ ps2) = take (length new1) ps1"
    by simp
  with 1 show ?thesis
    by (cases e) (auto simp: trace_post_def nth_append)
qed

lemma pairs_of_Cons: "pairs_of (e # es) = map (Pair e) (domains_of e) @ pairs_of es"
  by (simp add: pairs_of_def)

lemma create_endpoints_trace:
  "create_endpoints patch c all eps res st = (out, st') \<Longrightarrow>
     \<exists>new. attempts st' = attempts st @ new \<and> page_requests st' = page_requests st \<and>
       trace_post (strict_mode c) ''ENUM creation failed: '' (create_rrsets c all)
         (pairs_of eps) (r_errors res) (r_status res) new out"
proof (induction eps arbitrary: res st)
  case Nil
  then show ?case by (auto simp: pairs_of_def intro: trace_post_Nil_Inr)
next
  case (Cons ep eps)
  let ?res1 = "res\<lparr>r_endpoints := AList.update (endpoint_name ep) [] (r_endpoints res)\<rparr>"
  obtain o1 st1 where dom: "create_domains patch c ep all (domains_of ep) ?res1 st = (o1, st1)"
    by (cases "create_domains patch c ep all (domains_of ep) ?res1 st")
  from create_domains_trace [OF dom] obtain new1 where
    n1: "attempts st1 = attempts st @ new1" "page_requests st1 = page_requests st"
    and t1: "trace_post (strict_mode c) ''ENUM creation failed: '' (create_rrsets c all)
         (map (Pair ep) (domains_of ep)) (r_errors res) (r_status res) new1 o1"
    by auto
  show ?case
  proof (cases o1)
    case (Inl e)
    with Cons.prems dom have "out = Inl e" "st' = st1"
      by (simp_all add: domains_of_def Let_def)
    with n1 trace_post_stop [OF t1 [unfolded Inl], of "pairs_of eps"] show ?thesis
      by (auto simp: pairs_of_Cons)
  next
    case (Inr res2)
    with Cons.prems dom have rec: "create_endpoints patch c all eps res2 st1 = (out, st')"
      by (simp add: domains_of_def Let_def)
    from Cons.IH [OF rec] obtain new2 where
      n2: "attempts st' = attempts st1 @ new2" "page_requests st' = page_requests st1"
      and t2: "trace_post (strict_mode c) ''ENUM creation failed: '' (create_rrsets c all)
         (pairs_of eps) (r_errors res2) (r_status res2) new2 out"
      by auto
    from trace_post_append [OF t1 [unfolded Inr] t2] n1 n2 show ?thesis
      by (auto simp: pairs_of_Cons)
  qed
qed

lemma delete_domains_trace:
  "delete_domains patch c ep all ds res st = (out, st') \<Longrightarrow>
     \<exists>new. attempts st' = attempts st @ new \<and> page_requests st' = page_requests st \<and>
       trace_post (strict_mode c) ''ENUM deletion failed: '' (delete_rrsets all)
         (map (Pair ep) ds) (r_errors res) (r_status res) new out"
proof (induction ds arbitrary: res st)
  case Nil
  then show ?case by (auto intro: trace_post_Nil_Inr)
next
  case (Cons d ds)
  let ?rr = "delete_rrsets all ep d"
  obtain o1 st1 where mk: "make_pdns_request patch ep d ?rr st = (o1, st1)"
    by (cases "make_pdns_request patch ep d ?rr st")
  from make_pdns_request_cases [OF mk] show ?case
  proof (elim disjE exE conjE)
    fix k
    assume "o1 = Inl (KeyError k)" "st1 = st" "\<not> wf_endpoint ep"
    with Cons.prems mk show ?thesis
      by (auto simp: delete_rrsets_def intro: trace_post_KeyError)
  next
    fix succ err
    let ?a = "\<lparr>at_endpoint = ep, at_zone = d, at_rrsets = ?rr, at_success = succ, at_error = err\<rparr>"
    assume o1: "o1 = Inr (succ, err)"
      and at: "attempts st1 = attempts st @ [?a]"
      and pr: "page_requests st1 = page_requests st"
      and er: "\<not> succ \<longrightarrow> err \<noteq> None"
      and wf: "wf_endpoint ep"
    have det: "error_detail ?a = endpoint_name ep @ ''/'' @ d @ '': '' @ str_opt err"
      by (simp add: error_detail_def)
    show ?thesis
    proof (cases succ)
      case True
      with Cons.prems mk o1 obtain res1 st2 where
        rec: "delete_domains patch c ep all ds res1 st2 = (out, st')"
        and r1: "r_errors res1 = r_errors res" "r_status res1 = r_status res"
        and s2: "attempts st2 = attempts st1" "page_requests st2 = page_requests st1"
        by (auto simp: delete_rrsets_def Let_def)
      from Cons.IH [OF rec] obtain new where
        n: "attempts st' = attempts st2 @ new" "page_requests st' = page_requests st2"
        "trace_post (strict_mode c) ''ENUM deletion failed: '' (delete_rrsets all)
           (map (Pair ep) ds) (r_errors res1) (r_status res1) new out"
        by blast
      have "trace_post (strict_mode c) ''ENUM deletion failed: '' (delete_rrsets all)
           (map (Pair ep) (d # ds)) (r_errors res) (r_status res) (?a # new) out"
        using trace_post_Cons_ok [OF n(3) [unfolded r1], of ?a "(ep, d)"] True wf
        by (simp add: at_pair_def)
      with n s2 at pr show ?thesis by auto
    next
      case False
      show ?thesis
      proof (cases "strict_mode c")
        case True
        with False Cons.prems mk o1 have
          out: "out = Inl (ENUMManagementError (''ENUM deletion failed: '' @ error_detail ?a))"
          and s: "attempts st' = attempts st1" "page_requests st' = page_requests st1"
          by (auto simp: delete_rrsets_def error_detail_def Let_def)
        have "trace_post (strict_mode c) ''ENUM deletion failed: '' (delete_rrsets all)
           (map (Pair ep) (d # ds)) (r_errors res) (r_status res) [?a] out"
          unfolding out list.map
          by (rule trace_post_abort) (use True False er wf in \<open>simp_all add: at_pair_def\<close>)
        with s at pr show ?thesis by auto
      next
        case nstrict: False
        with False Cons.prems mk o1 obtain res1 st2 where
          rec: "delete_domains patch c ep all ds res1 st2 = (out, st')"
          and r1: "r_errors res1 = r_errors res @ [error_detail ?a]" "r_status res1 = r_status res"
          and s2: "attempts st2 = attempts st1" "page_requests st2 = page_requests st1"
          by (auto simp: delete_rrsets_def error_detail_def Let_def)
        from Cons.IH [OF rec] obtain new where
          n: "attempts st' = attempts st2 @ new" "page_requests st' = page_requests st2"
          "trace_post (strict_mode c) ''ENUM deletion failed: '' (delete_rrsets all)
             (map (Pair ep) ds) (r_errors res1) (r_status res1) new out"
          by blast
        have "trace_post (strict_mode c) ''ENUM deletion failed: '' (delete_rrsets all)
             (map (Pair ep) (d # ds)) (r_errors res) (r_status res) (?a # new) out"
          using trace_post_Cons_fail [OF n(3) [unfolded r1], of "(ep, d)"] False nstrict er wf
          by (simp add: at_pair_def)
        with n s2 at pr show ?thesis by auto
      qed
    qed
  qed
qed

lemma delete_endpoints_trace:
  "delete_endpoints patch c all eps res st = (out, st') \<Longrightarrow>
     \<exists>new. attempts st' = attempts st @ new \<and> page_requests st' = page_requests st \<and>
       trace_post (strict_mode c) ''ENUM deletion failed: '' (delete_rrsets all)
         (pairs_of eps) (r_errors res) (r_status res) new out"
proof (induction eps arbitrary: res st)
  case Nil
  then show ?case by (auto simp: pairs_of_def intro: trace_post_Nil_Inr)
next
  case (Cons ep eps)
  let ?res1 = "res\<lparr>r_endpoints := AList.update (endpoint_name ep) [] (r_endpoints res)\<rparr>"
  obtain o1 st1 where dom: "delete_domains patch c ep all (domains_of ep) ?res1 st = (o1, st1)"
    by (cases "delete_domains patch c ep all (domains_of ep) ?res1 st")
  from delete_domains_trace [OF dom] obtain new1 where
    n1: "attempts st1 = attempts st @ new1" "page_requests st1 = page_requests st"
    and t1: "trace_post (strict_mode c) ''ENUM deletion failed: '' (delete_rrsets all)
         (map (Pair ep) (domains_of ep)) (r_errors res) (r_status res) new1 o1"
    by auto
  show ?case
  proof (cases o1)
    case (Inl e)
    with Cons.prems dom have "out = Inl e" "st' = st1"
      by (simp_all add: domains_of_def Let_def)
    with n1 trace_post_stop [OF t1 [unfolded Inl], of "pairs_of eps"] show ?thesis
      by (auto simp: pairs_of_Cons)
  next
    case (Inr res2)
    with Cons.prems dom have rec: "delete_endpoints patch c all eps res2 st1 = (out, st')"
      by (simp add: domains_of_def Let_def)
    from Cons.IH [OF rec] obtain new2 where
      n2: "attempts st' = attempts st1 @ new2" "page_requests st' = page_requests st1"
      and t2: "trace_post (strict_mode c) ''ENUM deletion failed: '' (delete_rrsets all)
         (pairs_of eps) (r_errors res2) (r_status res2) new2 out"
      by auto
    from trace_post_append [OF t1 [unfolded Inr] t2] n1 n2 show ?thesis
      by (auto simp: pairs_of_Cons)
  qed
qed


lemma trace_post_strict_failure:
  assumes s: "strict" and t: "trace_post strict pfx mk ps e0 s0 new out"
    and i: "i < length new" and f: "\<not> at_success (new ! i)"
  shows "out = Inl (ENUMManagementError (pfx @ error_detail (new ! i))) \<and> Suc i = length new"
proof -
  from i f have nall: "\<not> list_all at_success new"
    by (auto simp: list_all_length)
  from s t nall obtain m where out: "out = Inl (ENUMManagementError m)"
    by (cases out; cases "projl out") (auto simp: trace_post_def)
  with t have ne: "new \<noteq> []" and bl: "list_all at_success (butlast new)"
    and m: "m = pfx @ error_detail (last new)"
    by (simp_all add: trace_post_def)
  have "\<not> i < length (butlast new)"
  proof
    assume "i < length (butlast new)"
    with bl have "at_success (butlast new ! i)" by (simp add: list_all_length)
    with \<open>i < length (butlast new)\<close> f show False by (simp add: nth_butlast)
  qed
  with i have si: "Suc i = length new" by simp
  from ne si [symmetric] have "last new = new ! i" by (simp add: last_conv_nth)
  with out m si show ?thesis by simp
qed

lemma create_call_trace:
  assumes "create_enum_entries patch c msisdn msisdn_list st = (out, st')"
  shows "\<exists>new. attempts st' = attempts st @ new \<and> page_requests st' = page_requests st \<and>
           (if \<not> enabled c then new = [] \<and> out = Inr (StatusOnly Disabled)
            else if parse_msisdn_list msisdn msisdn_list = [] then new = [] \<and> out = Inr (StatusOnly NoMsisdns)
            else \<exists>out'. out = finish out' \<and>
                   trace_post (strict_mode c) ''ENUM creation failed: ''
                     (create_rrsets c (parse_msisdn_list msisdn msisdn_list))
                     (pairs_of (endpoints c)) [] Ok new out')"
proof (cases "enabled c \<and> parse_msisdn_list msisdn msisdn_list \<noteq> []")
  case False
  show ?thesis
  proof (cases "enabled c")
    case True
    with False assms have "out = Inr (StatusOnly NoMsisdns)" "attempts st' = attempts st"
      "page_requests st' = page_requests st"
      by (auto simp: create_enum_entries_def Let_def)
    with True False show ?thesis by simp
  next
    case nen: False
    with assms have "out = Inr (StatusOnly Disabled)" "attempts st' = attempts st"
      "page_requests st' = page_requests st"
      by (auto simp: create_enum_entries_def Let_def)
    with nen show ?thesis by simp
  qed
next
  case True
  let ?all = "parse_msisdn_list msisdn msisdn_list"
  let ?st1 = "log c ''info'' (''Creating ENUM entries for MSISDNs: '' @ repr_list ?all) st"
  let ?res = "\<lparr>r_status = Ok, r_endpoints = [], r_errors = []\<rparr>"
  obtain o1 st2 where run: "create_endpoints patch c ?all (endpoints c) ?res ?st1 = (o1, st2)"
    by (cases "create_endpoints patch c ?all (endpoints c) ?res ?st1")
  from create_endpoints_trace [OF run] obtain new where
    n: "attempts st2 = attempts st @ new" "page_requests st2 = page_requests st"
    and t: "trace_post (strict_mode c) ''ENUM creation failed: '' (create_rrsets c ?all)
              (pairs_of (endpoints c)) [] Ok new o1"
    by auto
  from assms True run have "out = finish o1" "st' = st2"
    by (auto simp: create_enum_entries_def Let_def finish_def split: sum.splits)
  with n t True show ?thesis by auto
qed

lemma delete_call_trace:
  assumes "delete_enum_entries patch c msisdn msisdn_list st = (out, st')"
  shows "\<exists>new. attempts st' = attempts st @ new \<and> page_requests st' = page_requests st \<and>
           (if \<not> enabled c then new = [] \<and> out = Inr (StatusOnly Disabled)
            else if parse_msisdn_list msisdn msisdn_list = [] then new = [] \<and> out = Inr (StatusOnly NoMsisdns)
            else \<exists>out'. out = finish out' \<and>
                   trace_post (strict_mode c) ''ENUM deletion failed: ''
                     (delete_rrsets (parse_msisdn_list msisdn msisdn_list))
                     (pairs_of (endpoints c)) [] Ok new out')"
proof (cases "enabled c \<and> parse_msisdn_list msisdn msisdn_list \<noteq> []")
  case False
  show ?thesis
  proof (cases "enabled c")
    case True
    with False assms have "out = Inr (StatusOnly NoMsisdns)" "attempts st' = attempts st"
      "page_requests st' = page_requests st"
      by (auto simp: delete_enum_entries_def Let_def)
    with True False show ?thesis by simp
  next
    case nen: False
    with assms have "out = Inr (StatusOnly Disabled)" "attempts st' = attempts st"
      "page_requests st' = page_requests st"
      by (auto simp: delete_enum_entries_def Let_def)
    with nen show ?thesis by simp
  qed
next
  case True
  let ?all = "parse_msisdn_list msisdn msisdn_list"
  let ?st1 = "log c ''info'' (''Deleting ENUM entries for MSISDNs: '' @ repr_list ?all) st"
  let ?res = "\<lparr>r_status = Ok, r_endpoints = [], r_errors = []\<rparr>"
  obtain o1 st2 where run: "delete_endpoints patch c ?all (endpoints c) ?res ?st1 = (o1, st2)"
    by (cases "delete_endpoints patch c ?all (endpoints c) ?res ?st1")
  from delete_endpoints_trace [OF run] obtain new where
    n: "attempts st2 = attempts st @ new" "page_requests st2 = page_requests st"
    and t: "trace_post (strict_mode c) ''ENUM deletion failed: '' (delete_rrsets ?all)
              (pairs_of (endpoints c)) [] Ok new o1"
    by auto
  from assms True run have "out = finish o1" "st' = st2"
    by (auto simp: delete_enum_entries_def Let_def finish_def split: sum.splits)
  with n t True show ?thesis by auto
qed

text \<open>
  C2. In strict mode, when a transport attempt of a create (or delete) call fails, the call
  raises \<open>ENUMManagementError\<close> carrying the formatted \<open><endpoint>/<domain>: <detail>\<close> string
  of that attempt, the failed attempt is the last one made, and the attempts made are exactly
  the configured (endpoint, domain) pairs up to it: no later pair is attempted and no result
  (so no status \<open>ok\<close> or \<open>partial\<close>) is returned.
\<close>

theorem strict_mode_aborts:
  assumes "strict_mode c" and "i < length new" and "\<not> at_success (new ! i)"
  shows "(create_enum_entries patch c msisdn msisdn_list st = (out, st') \<and>
            attempts st' = attempts st @ new \<longrightarrow>
          out = Inl (ENUMManagementError (''ENUM creation failed: '' @ error_detail (new ! i))) \<and>
          Suc i = length new \<and> map at_pair new = take (Suc i) (pairs_of (endpoints c))) \<and>
         (delete_enum_entries patch c msisdn msisdn_list st = (out, st') \<and>
            attempts st' = attempts st @ new \<longrightarrow>
          out = Inl (ENUMManagementError (''ENUM deletion failed: '' @ error_detail (new ! i))) \<and>
          Suc i = length new \<and> map at_pair new = take (Suc i) (pairs_of (endpoints c)))"
proof (intro conjI impI)
  assume run: "create_enum_entries patch c msisdn msisdn_list st = (out, st') \<and>
               attempts st' = attempts st @ new"
  from create_call_trace [of patch c msisdn msisdn_list st out st'] run assms(2)
  obtain out' where o: "out = finish out'"
    and t: "trace_post (strict_mode c) ''ENUM creation failed: ''
              (create_rrsets c (parse_msisdn_list msisdn msisdn_list)) (pairs_of (endpoints c)) [] Ok new out'"
    by (auto split: if_splits)
  from trace_post_strict_failure [OF assms(1) t assms(2,3)]
  have r: "out' = Inl (ENUMManagementError (''ENUM creation failed: '' @ error_detail (new ! i)))"
    "Suc i = length new" by simp_all
  from t have "map at_pair new = take (length new) (pairs_of (endpoints c))"
    by (simp add: trace_post_def)
  with r o show "out = Inl (ENUMManagementError (''ENUM creation failed: '' @ error_detail (new ! i)))"
    "Suc i = length new" "map at_pair new = take (Suc i) (pairs_of (endpoints c))"
    by (simp_all add: finish_def)
next
  assume run: "delete_enum_entries patch c msisdn msisdn_list st = (out, st') \<and>
               attempts st' = attempts st @ new"
  from delete_call_trace [of patch c msisdn msisdn_list st out st'] run assms(2)
  obtain out' where o: "out = finish out'"
    and t: "trace_post (strict_mode c) ''ENUM deletion failed: ''
              (delete_rrsets (parse_msisdn_list msisdn msisdn_list)) (pairs_of (endpoints c)) [] Ok new out'"
    by (auto split: if_splits)
  from trace_post_strict_failure [OF assms(1) t assms(2,3)]
  have r: "out' = Inl (ENUMManagementError (''ENUM deletion failed: '' @ error_detail (new ! i)))"
    "Suc i = length new" by simp_all
  from t have "map at_pair new = take (length new) (pairs_of (endpoints c))"
    by (simp add: trace_post_def)
  with r o show "out = Inl (ENUMManagementError (''ENUM deletion failed: '' @ error_detail (new ! i)))"
    "Suc i = length new" "map at_pair new = take (Suc i) (pairs_of (endpoints c))"
    by (simp_all add: finish_def)
qed

lemmas eval_defs =
  create_enum_entries_def delete_enum_entries_def parse_msisdn_list_def isdigit_def
  make_pdns_request_def log_def Let_def endpoint_name_def demo_endpoint_def demo_client_def
  failing_patch_def ok_patch_def env0_def failed_attempt_def create_rrsets_def delete_rrsets_def sip_of_def
  pairs_of_def domains_of_def at_pair_def error_detail_def str_opt_def

lemma attempts_env0: "attempts env0 = []"
  by (simp add: env0_def)

lemma create_strict_run:
  "create_enum_entries failing_patch (demo_client True True [demo_endpoint]) (Some ''4917'') None env0 =
     (Inl (ENUMManagementError ''ENUM creation failed: pdns1/e164.arpa: PowerDNS request failed: timed out''),
      env0\<lparr>attempts :=
              [failed_attempt ''e164.arpa'' (create_rrsets (demo_client True True [demo_endpoint]) [''4917'']
                 demo_endpoint ''e164.arpa'')],
           logs := [(''info'', ''Creating ENUM entries for MSISDNs: '' @ repr_list [''4917'']),
                    (''error'', ''ENUM create failed - pdns1/e164.arpa: PowerDNS request failed: timed out'')]\<rparr>)"
  by (simp add: eval_defs)

lemma delete_strict_run:
  "delete_enum_entries failing_patch (demo_client True True [demo_endpoint]) (Some ''4917'') None env0 =
     (Inl (ENUMManagementError ''ENUM deletion failed: pdns1/e164.arpa: PowerDNS request failed: timed out''),
      env0\<lparr>attempts := [failed_attempt ''e164.arpa'' (delete_rrsets [''4917''] demo_endpoint ''e164.arpa'')],
           logs := [(''info'', ''Deleting ENUM entries for MSISDNs: '' @ repr_list [''4917'']),
                    (''error'', ''ENUM delete failed - pdns1/e164.arpa: PowerDNS request failed: timed out'')]\<rparr>)"
  by (simp add: eval_defs)

theorem strict_mode_aborts_witness:
  "strict_mode (demo_client True True [demo_endpoint]) \<and>
   \<not> at_success ([failed_attempt ''e164.arpa'' (create_rrsets (demo_client True True [demo_endpoint]) [''4917'']
                     demo_endpoint ''e164.arpa'')] ! 0) \<and>
   attempts (snd (create_enum_entries failing_patch (demo_client True True [demo_endpoint])
                    (Some ''4917'') None env0)) =
     attempts env0 @ [failed_attempt ''e164.arpa'' (create_rrsets (demo_client True True [demo_endpoint]) [''4917'']
                     demo_endpoint ''e164.arpa'')] \<and>
   fst (create_enum_entries failing_patch (demo_client True True [demo_endpoint]) (Some ''4917'') None env0) =
     Inl (ENUMManagementError ''ENUM creation failed: pdns1/e164.arpa: PowerDNS request failed: timed out'') \<and>
   pairs_of (endpoints (demo_client True True [demo_endpoint])) =
     [(demo_endpoint, ''e164.arpa''), (demo_endpoint, ''e164.example'')]"
proof -
  let ?c = "demo_client True True [demo_endpoint]"
  let ?a = "failed_attempt ''e164.arpa'' (create_rrsets ?c [''4917''] demo_endpoint ''e164.arpa'')"
  let ?run = "create_enum_entries failing_patch ?c (Some ''4917'') None env0"
  have s: "strict_mode ?c" by (simp add: demo_client_def)
  have i: "0 < length [?a]" by simp
  have f: "\<not> at_success ([?a] ! 0)" by (simp add: failed_attempt_def)
  have r: "?run = (fst ?run, snd ?run) \<and> attempts (snd ?run) = attempts env0 @ [?a]"
    by (simp add: create_strict_run attempts_env0)
  have p: "pairs_of (endpoints ?c) = [(demo_endpoint, ''e164.arpa''), (demo_endpoint, ''e164.example'')]"
    by (simp add: pairs_of_def domains_of_def demo_client_def demo_endpoint_def)
  from strict_mode_aborts [OF s i f, of failing_patch "Some ''4917''" None env0 "fst ?run" "snd ?run"] r
  have "fst ?run = Inl (ENUMManagementError (''ENUM creation failed: '' @ error_detail ([?a] ! 0)))"
    by blast
  then have "fst ?run =
      Inl (ENUMManagementError ''ENUM creation failed: pdns1/e164.arpa: PowerDNS request failed: timed out'')"
    by (simp add: error_detail_def failed_attempt_def endpoint_name_def demo_endpoint_def str_opt_def)
  with s f r p show ?thesis by blast
qed

text \<open>
  C3 (amended). For every create or delete call that returns a full result, the status is
  \<open>ok\<close> iff the accumulated error list is empty and \<open>partial\<close> iff it is non-empty; the error
  list holds the formatted entry of every failed attempt, in order, and every configured
  (endpoint, domain) pair was attempted. Whether any attempt was made plays no part: with no
  pair configured the status is \<open>ok\<close>.
\<close>

theorem status_reflects_errors:
  assumes "attempts st' = attempts st @ new"
  shows "(create_enum_entries patch c msisdn msisdn_list st = (Inr (Results r), st') \<longrightarrow>
            (r_status r = Ok \<longleftrightarrow> r_errors r = []) \<and> (r_status r = Partial \<longleftrightarrow> r_errors r \<noteq> []) \<and>
            r_errors r = map error_detail (filter (\<lambda>a. \<not> at_success a) new) \<and>
            map at_pair new = pairs_of (endpoints c)) \<and>
         (delete_enum_entries patch c msisdn msisdn_list st = (Inr (Results r), st') \<longrightarrow>
            (r_status r = Ok \<longleftrightarrow> r_errors r = []) \<and> (r_status r = Partial \<longleftrightarrow> r_errors r \<noteq> []) \<and>
            r_errors r = map error_detail (filter (\<lambda>a. \<not> at_success a) new) \<and>
            map at_pair new = pairs_of (endpoints c))"
proof -
  have key: "(r_status r = Ok \<longleftrightarrow> r_errors r = []) \<and> (r_status r = Partial \<longleftrightarrow> r_errors r \<noteq> []) \<and>
            r_errors r = map error_detail (filter (\<lambda>a. \<not> at_success a) new) \<and>
            map at_pair new = pairs_of (endpoints c)"
    if o: "Inr (Results r) = finish out'"
      and t: "trace_post strict pfx mk (pairs_of (endpoints c)) [] Ok new out'"
    for out' strict pfx mk
  proof -
    from o obtain res where out': "out' = Inr res"
      and r: "r = (if r_errors res \<noteq> [] then res\<lparr>r_status := Partial\<rparr> else res)"
      by (cases out') (auto simp: finish_def)
    from t out' have "length new = length (pairs_of (endpoints c))" "r_status res = Ok"
      "r_errors res = map error_detail (filter (\<lambda>a. \<not> at_success a) new)"
      "map at_pair new = take (length new) (pairs_of (endpoints c))"
      by (simp_all add: trace_post_def)
    with r show ?thesis by auto
  qed
  show ?thesis
  proof (intro conjI impI)
    assume run: "create_enum_entries patch c msisdn msisdn_list st = (Inr (Results r), st')"
    from create_call_trace [OF run] assms obtain out' where
      "Inr (Results r) = finish out'"
      "trace_post (strict_mode c) ''ENUM creation failed: ''
         (create_rrsets c (parse_msisdn_list msisdn msisdn_list)) (pairs_of (endpoints c)) [] Ok new out'"
      by (auto split: if_splits)
    from key [OF this] show "r_status r = Ok \<longleftrightarrow> r_errors r = []"
      "r_status r = Partial \<longleftrightarrow> r_errors r \<noteq> []"
      "r_errors r = map error_detail (filter (\<lambda>a. \<not> at_success a) new)"
      "map at_pair new = pairs_of (endpoints c)"
      by blast+
  next
    assume run: "delete_enum_entries patch c msisdn msisdn_list st = (Inr (Results r), st')"
    from delete_call_trace [OF run] assms obtain out' where
      "Inr (Results r) = finish out'"
      "trace_post (strict_mode c) ''ENUM deletion failed: ''
         (delete_rrsets (parse_msisdn_list msisdn msisdn_list)) (pairs_of (endpoints c)) [] Ok new out'"
      by (auto split: if_splits)
    from key [OF this] show "r_status r = Ok \<longleftrightarrow> r_errors r = []"
      "r_status r = Partial \<longleftrightarrow> r_errors r \<noteq> []"
      "r_errors r = map error_detail (filter (\<lambda>a. \<not> at_success a) new)"
      "map at_pair new = pairs_of (endpoints c)"
      by blast+
  qed
qed

lemma create_lenient_run:
  "fst (create_enum_entries failing_patch (demo_client True False [demo_endpoint]) (Some ''4917'') None env0) =
     Inr (Results \<lparr>r_status = Partial,
            r_endpoints = [(''pdns1'', [(''e164.arpa'', False, [''4917'']), (''e164.example'', False, [''4917''])])],
            r_errors = [''pdns1/e164.arpa: PowerDNS request failed: timed out'',
                        ''pdns1/e164.example: PowerDNS request failed: timed out'']\<rparr>)"
  "attempts (snd (create_enum_entries failing_patch (demo_client True False [demo_endpoint])
                    (Some ''4917'') None env0)) =
     [failed_attempt ''e164.arpa'' (create_rrsets (demo_client True False [demo_endpoint]) [''4917''] demo_endpoint ''e164.arpa''),
      failed_attempt ''e164.example''
        (create_rrsets (demo_client True False [demo_endpoint]) [''4917''] demo_endpoint ''e164.example'')]"
  by (simp_all add: eval_defs)

theorem status_reflects_errors_witness:
  "attempts (snd (create_enum_entries failing_patch (demo_client True False [demo_endpoint])
                    (Some ''4917'') None env0)) =
     attempts env0 @
     [failed_attempt ''e164.arpa''
        (create_rrsets (demo_client True False [demo_endpoint]) [''4917''] demo_endpoint ''e164.arpa''),
      failed_attempt ''e164.example''
        (create_rrsets (demo_client True False [demo_endpoint]) [''4917''] demo_endpoint ''e164.example'')] \<and>
   fst (create_enum_entries failing_patch (demo_client True False [demo_endpoint])
          (Some ''4917'') None env0) = Inr (Results demo_partial) \<and>
   (r_status demo_partial = Ok \<longleftrightarrow> r_errors demo_partial = []) \<and>
   (r_status demo_partial = Partial \<longleftrightarrow> r_errors demo_partial \<noteq> []) \<and>
   r_errors demo_partial =
     map error_detail (filter (\<lambda>a. \<not> at_success a)
       [failed_attempt ''e164.arpa''
          (create_rrsets (demo_client True False [demo_endpoint]) [''4917''] demo_endpoint ''e164.arpa''),
        failed_attempt ''e164.example''
          (create_rrsets (demo_client True False [demo_endpoint]) [''4917''] demo_endpoint ''e164.example'')])"
proof -
  let ?c = "demo_client True False [demo_endpoint]"
  let ?run = "create_enum_entries failing_patch ?c (Some ''4917'') None env0"
  let ?new = "[failed_attempt ''e164.arpa'' (create_rrsets ?c [''4917''] demo_endpoint ''e164.arpa''),
      failed_attempt ''e164.example'' (create_rrsets ?c [''4917''] demo_endpoint ''e164.example'')]"
  have a: "attempts (snd ?run) = attempts env0 @ ?new"
    by (simp add: create_lenient_run(2) attempts_env0)
  have f: "fst ?run = Inr (Results demo_partial)"
    by (simp add: create_lenient_run(1) demo_partial_def)
  then have e: "?run = (Inr (Results demo_partial), snd ?run)"
    by (simp add: prod_eq_iff)
  from status_reflects_errors [OF a, of failing_patch ?c "Some ''4917''" None demo_partial] e
  have "(r_status demo_partial = Ok \<longleftrightarrow> r_errors demo_partial = []) \<and>
        (r_status demo_partial = Partial \<longleftrightarrow> r_errors demo_partial \<noteq> []) \<and>
        r_errors demo_partial = map error_detail (filter (\<lambda>a. \<not> at_success a) ?new)"
    by blast
  with a f show ?thesis by blast
qed

text \<open>An enabled engine without endpoints returns \<open>ok\<close> although no attempt was made.\<close>

theorem ok_without_attempt_counterexample:
  "fst (create_enum_entries ok_patch (demo_client True False []) (Some ''4917'') None env0) =
     Inr (Results \<lparr>r_status = Ok, r_endpoints = [], r_errors = []\<rparr>) \<and>
   attempts (snd (create_enum_entries ok_patch (demo_client True False []) (Some ''4917'') None env0)) =
     attempts env0"
  by (simp add: eval_defs)

section \<open>update: the set difference\<close>

lemma split_no_sep: "sep \<notin> set x \<Longrightarrow> split sep x = [x]"
  by (induction x) auto

lemma split_append_sep: "sep \<notin> set x \<Longrightarrow> split sep (x @ sep # rest) = x # split sep rest"
  by (induction x) auto

lemma split_join:
  "xs \<noteq> [] \<Longrightarrow> \<forall>x\<in>set xs. CHR '','' \<notin> set x \<Longrightarrow> split CHR '','' (join '','' xs) = xs"
proof (induction xs rule: induct_list012)
  case 1
  then show ?case by simp
next
  case (2 x)
  then show ?case by (simp add: split_no_sep)
next
  case (3 x y zs)
  then have "split CHR '','' (join '','' (y # zs)) = y # zs" by simp
  with 3 show ?case by (simp add: split_append_sep)
qed

lemma join_nonempty: "xs \<noteq> [] \<Longrightarrow> \<forall>x\<in>set xs. x \<noteq> [] \<Longrightarrow> join sep xs \<noteq> []"
  by (induction xs rule: induct_list012) auto

lemma digit_not_space: "isdigit ch \<Longrightarrow> \<not> isspace ch"
  by (auto simp: isdigit_def isspace_def)

lemma digit_not_comma: "isdigit ch \<Longrightarrow> ch \<noteq> CHR '',''"
  by (auto simp: isdigit_def)

lemma dropWhile_hd: "xs \<noteq> [] \<Longrightarrow> \<not> P (hd xs) \<Longrightarrow> dropWhile P xs = xs"
  by (cases xs) auto

lemma strip_digit_string: "digit_string x \<Longrightarrow> strip x = x"
proof -
  assume d: "digit_string x"
  then have ne: "x \<noteq> []" and all: "\<forall>ch\<in>set x. isdigit ch"
    by (simp_all add: digit_string_def)
  from ne all have "isdigit (hd x)" by (cases x) auto
  then have 1: "dropWhile isspace x = x"
    using ne by (simp add: dropWhile_hd digit_not_space)
  from ne all have "isdigit (hd (rev x))" by (simp add: hd_rev)
  then have 2: "dropWhile isspace (rev x) = rev x"
    using ne by (simp add: dropWhile_hd digit_not_space)
  show ?thesis by (simp add: strip_def 1 2)
qed

lemma clean_digit_string: "digit_string x \<Longrightarrow> filter isdigit (strip x) = x"
  by (simp add: strip_digit_string) (simp add: digit_string_def)

lemma parse_loop_clean:
  "distinct (acc @ xs) \<Longrightarrow> list_all digit_string xs \<Longrightarrow> parse_loop acc xs = acc @ xs"
proof (induction xs arbitrary: acc)
  case Nil
  then show ?case by simp
next
  case (Cons x xs)
  from Cons.prems have c: "filter isdigit (strip x) = x" and ne: "x \<noteq> []" and nin: "x \<notin> set acc"
    by (simp_all add: clean_digit_string) (simp add: digit_string_def)
  from Cons.prems have "distinct ((acc @ [x]) @ xs)" "list_all digit_string xs" by auto
  from Cons.IH [OF this] c ne nin show ?case by (simp add: Let_def)
qed

lemma parse_join_roundtrip:
  assumes "xs \<noteq> []" "distinct xs" "list_all digit_string xs"
  shows "parse_msisdn_list None (Some (join '','' xs)) = xs"
proof -
  from assms(3) have nc: "\<forall>x\<in>set xs. CHR '','' \<notin> set x" and ne: "\<forall>x\<in>set xs. x \<noteq> []"
    using digit_not_comma by (auto simp: list_all_iff digit_string_def)
  from join_nonempty [OF assms(1) ne] have j: "join '','' xs \<noteq> []" .
  from parse_loop_clean [of "[]" xs] assms have "parse_loop [] xs = xs" by simp
  with j split_join [OF assms(1) nc] show ?thesis
    by (simp add: parse_msisdn_list_def)
qed

lemma iter_roundtrip:
  assumes "S \<noteq> {}" "set (set_iter S) = S" "distinct (set_iter S)" "\<forall>x\<in>S. digit_string x"
  shows "parse_msisdn_list None (Some (join '','' (set_iter S))) = set_iter S"
proof -
  from assms(1,2) have 1: "set_iter S \<noteq> []" by auto
  from assms(2,4) have 2: "list_all digit_string (set_iter S)" by (simp add: list_all_iff)
  from parse_join_roundtrip [OF 1 assms(3) 2] show ?thesis .
qed

lemma finish_Inl: "finish out' = Inl e \<Longrightarrow> out' = Inl e"
  by (cases out') (simp_all add: finish_def)

lemma trace_post_raised_strict:
  "trace_post strict pfx mk ps e0 s0 new (Inl (ENUMManagementError m)) \<Longrightarrow> strict"
  by (simp add: trace_post_def)

lemma finish_Inr: "finish out' = Inr r \<Longrightarrow> \<exists>res. out' = Inr res"
  by (cases out') (simp_all add: finish_def)

lemma update_delete_phase_trace:
  assumes en: "enabled c"
    and it: "set (set_iter S) = S" "distinct (set_iter S)" "\<forall>x\<in>S. digit_string x"
    and run: "update_delete_phase patch set_iter c S res st = (x, res', st')"
  shows "\<exists>new. attempts st' = attempts st @ new \<and>
           (S = {} \<longrightarrow> new = [] \<and> x = None \<and> res' = res) \<and>
           (S \<noteq> {} \<longrightarrow>
              (\<exists>out'. trace_post (strict_mode c) ''ENUM deletion failed: '' (delete_rrsets (set_iter S))
                         (pairs_of (endpoints c)) [] Ok new out' \<and>
                      (\<forall>e. out' = Inl e \<longrightarrow> x = Some e) \<and>
                      (\<forall>r. out' = Inr r \<longrightarrow>
                           x = None \<and> u_deleted res' = set_iter S \<and> u_created res' = u_created res)))"
proof (cases "S = {}")
  case True
  with run show ?thesis by (simp add: update_delete_phase_def)
next
  case False
  let ?l = "join '','' (set_iter S)"
  have rt: "parse_msisdn_list None (Some ?l) = set_iter S"
    using False it by (rule iter_roundtrip)
  from False it(1) have ne: "set_iter S \<noteq> []" by auto
  obtain o1 st1 where call: "delete_enum_entries patch c None (Some ?l) st = (o1, st1)"
    by (cases "delete_enum_entries patch c None (Some ?l) st")
  from delete_call_trace [OF call] en rt ne obtain new out' where
    n: "attempts st1 = attempts st @ new" and o: "o1 = finish out'"
    and t: "trace_post (strict_mode c) ''ENUM deletion failed: '' (delete_rrsets (set_iter S))
              (pairs_of (endpoints c)) [] Ok new out'"
    by auto
  have "st' = st1 \<and> (\<forall>e. out' = Inl e \<longrightarrow> x = Some e) \<and>
        (\<forall>r. out' = Inr r \<longrightarrow> x = None \<and> u_deleted res' = set_iter S \<and> u_created res' = u_created res)"
  proof (cases out')
    case (Inr r)
    with o obtain dr where o1: "o1 = Inr dr" by (simp add: finish_def)
    with run call False Inr show ?thesis
      by (cases "get_errors dr") (auto simp: update_delete_phase_def Let_def split: if_splits)
  next
    case (Inl e)
    with o have o1: "o1 = Inl e" by (simp add: finish_def)
    show ?thesis
    proof (cases e)
      case (ENUMManagementError m)
      with Inl t have "strict_mode c"
        using trace_post_raised_strict by metis
      with run call False Inl o1 ENUMManagementError show ?thesis
        by (auto simp: update_delete_phase_def Let_def)
    next
      case (KeyError k)
      with run call False Inl o1 show ?thesis
        by (auto simp: update_delete_phase_def Let_def)
    next
      case (OtherException m)
      with run call False Inl o1 show ?thesis
        by (auto simp: update_delete_phase_def Let_def)
    qed
  qed
  with n t False show ?thesis by blast
qed

lemma update_create_phase_trace:
  assumes en: "enabled c"
    and it: "set (set_iter S) = S" "distinct (set_iter S)" "\<forall>x\<in>S. digit_string x"
    and run: "update_create_phase patch set_iter c S res st = (x, res', st')"
  shows "\<exists>new. attempts st' = attempts st @ new \<and>
           (S = {} \<longrightarrow> new = [] \<and> x = None \<and> res' = res) \<and>
           (S \<noteq> {} \<longrightarrow>
              (\<exists>out'. trace_post (strict_mode c) ''ENUM creation failed: '' (create_rrsets c (set_iter S))
                         (pairs_of (endpoints c)) [] Ok new out' \<and>
                      (\<forall>e. out' = Inl e \<longrightarrow> x = Some e) \<and>
                      (\<forall>r. out' = Inr r \<longrightarrow>
                           x = None \<and> u_created res' = set_iter S \<and> u_deleted res' = u_deleted res)))"
proof (cases "S = {}")
  case True
  with run show ?thesis by (simp add: update_create_phase_def)
next
  case False
  let ?l = "join '','' (set_iter S)"
  have rt: "parse_msisdn_list None (Some ?l) = set_iter S"
    using False it by (rule iter_roundtrip)
  from False it(1) have ne: "set_iter S \<noteq> []" by auto
  obtain o1 st1 where call: "create_enum_entries patch c None (Some ?l) st = (o1, st1)"
    by (cases "create_enum_entries patch c None (Some ?l) st")
  from create_call_trace [OF call] en rt ne obtain new out' where
    n: "attempts st1 = attempts st @ new" and o: "o1 = finish out'"
    and t: "trace_post (strict_mode c) ''ENUM creation failed: '' (create_rrsets c (set_iter S))
              (pairs_of (endpoints c)) [] Ok new out'"
    by auto
  have "st' = st1 \<and> (\<forall>e. out' = Inl e \<longrightarrow> x = Some e) \<and>
        (\<forall>r. out' = Inr r \<longrightarrow> x = None \<and> u_created res' = set_iter S \<and> u_deleted res' = u_deleted res)"
  proof (cases out')
    case (Inr r)
    with o obtain dr where o1: "o1 = Inr dr" by (simp add: finish_def)
    with run call False Inr show ?thesis
      by (cases "get_errors dr") (auto simp: update_create_phase_def Let_def split: if_splits)
  next
    case (Inl e)
    with o have o1: "o1 = Inl e" by (simp add: finish_def)
    show ?thesis
    proof (cases e)
      case (ENUMManagementError m)
      with Inl t have "strict_mode c"
        using trace_post_raised_strict by metis
      with run call False Inl o1 ENUMManagementError show ?thesis
        by (auto simp: update_create_phase_def Let_def)
    next
      case (KeyError k)
      with run call False Inl o1 show ?thesis
        by (auto simp: update_create_phase_def Let_def)
    next
      case (OtherException m)
      with run call False Inl o1 show ?thesis
        by (auto simp: update_create_phase_def Let_def)
    qed
  qed
  with n t False show ?thesis by blast
qed

text \<open>What a phase of update does, read off the trace of its sub-call.\<close>

lemma phase_facts:
  assumes t: "trace_post strict pfx mk ps [] Ok new out'"
  shows "map at_pair new = take (length new) ps"
    and "list_all (\<lambda>a. at_rrsets a = mk (at_endpoint a) (at_zone a)) new"
    and "\<And>r. out' = Inr r \<Longrightarrow> length new = length ps"
    and "\<And>m. out' = Inl (ENUMManagementError m) \<Longrightarrow> strict \<and> new \<noteq> [] \<and> \<not> at_success (last new)"
    and "\<And>k. out' = Inl (KeyError k) \<Longrightarrow> length new < length ps \<and> \<not> wf_endpoint (fst (ps ! length new))"
    and "\<And>m. out' \<noteq> Inl (OtherException m)"
  using t by (auto simp: trace_post_def)

lemma phase_aborted_trace:
  assumes t: "trace_post strict pfx mk ps [] Ok new (Inl e)"
  shows "phase_aborted strict ps new e"
  using t by (cases e) (auto simp: trace_post_def phase_aborted_def)

text \<open>
  C1. For every pair of old and new MSISDN inputs (engine enabled, the iteration of a set
  yielding each element once), update works on \<open>to_delete = old_set - new_set\<close> and
  \<open>to_create = new_set - old_set\<close>. Its transport calls are those of the delete sub-call, whose
  record sets are the DELETE descriptors of \<open>to_delete\<close>, followed by those of the create
  sub-call, whose record sets are the REPLACE descriptors of \<open>to_create\<close>; each goes through the
  configured (endpoint, domain) pairs in order, and through none when its set is empty (so equal
  sets make no call). When update returns a result, every pair was called for each non-empty
  difference and the result reports \<open>deleted\<close> and \<open>created\<close> as the two sets; when it raises,
  a phase was cut short by a strict-mode failure or a \<open>KeyError\<close>, and a delete phase cut short
  leaves create uncalled. The comma-joined string handed to a sub-call parses back to exactly
  the difference. The witness is the example old = {111, 222}, new = {333}, with its four calls.
\<close>

theorem update_set_difference:
  assumes en: "enabled c"
    and td: "to_delete = set (parse_msisdn_list old_msisdn old_msisdn_list) -
                         set (parse_msisdn_list new_msisdn new_msisdn_list)"
    and tc: "to_create = set (parse_msisdn_list new_msisdn new_msisdn_list) -
                         set (parse_msisdn_list old_msisdn old_msisdn_list)"
    and itd: "set (set_iter to_delete) = to_delete" "distinct (set_iter to_delete)"
    and itc: "set (set_iter to_create) = to_create" "distinct (set_iter to_create)"
    and run: "update_enum_entries patch set_iter c old_msisdn old_msisdn_list new_msisdn new_msisdn_list st
                = (out, st')"
  shows "\<exists>del cre.
          attempts st' = attempts st @ del @ cre \<and>
          map at_pair del = take (length del) (calls_for to_delete (endpoints c)) \<and>
          map at_pair cre = take (length cre) (calls_for to_create (endpoints c)) \<and>
          list_all (\<lambda>a. at_rrsets a = delete_rrsets (set_iter to_delete) (at_endpoint a) (at_zone a)) del \<and>
          list_all (\<lambda>a. at_rrsets a = create_rrsets c (set_iter to_create) (at_endpoint a) (at_zone a)) cre \<and>
          (\<forall>r. out = Inr r \<longrightarrow>
               map at_pair del = calls_for to_delete (endpoints c) \<and>
               map at_pair cre = calls_for to_create (endpoints c) \<and>
               (\<exists>u. r = UResults u \<and> set (u_deleted u) = to_delete \<and> set (u_created u) = to_create)) \<and>
          (\<forall>e. out = Inl e \<longrightarrow>
               (cre = [] \<and> phase_aborted (strict_mode c) (calls_for to_delete (endpoints c)) del e) \<or>
               (map at_pair del = calls_for to_delete (endpoints c) \<and>
                phase_aborted (strict_mode c) (calls_for to_create (endpoints c)) cre e)) \<and>
          (to_delete \<noteq> {} \<longrightarrow>
             parse_msisdn_list None (Some (join '','' (set_iter to_delete))) = set_iter to_delete) \<and>
          (to_create \<noteq> {} \<longrightarrow>
             parse_msisdn_list None (Some (join '','' (set_iter to_create))) = set_iter to_create)"
proof -
  let ?P = "pairs_of (endpoints c)"
  let ?D = "calls_for to_delete (endpoints c)"
  let ?C = "calls_for to_create (endpoints c)"
  let ?RD = "\<lambda>a. at_rrsets a = delete_rrsets (set_iter to_delete) (at_endpoint a) (at_zone a)"
  let ?RC = "\<lambda>a. at_rrsets a = create_rrsets c (set_iter to_create) (at_endpoint a) (at_zone a)"
  have dd: "\<forall>x\<in>to_delete. digit_string x"
    using parse_digit_strings [of old_msisdn old_msisdn_list] by (auto simp: td list_all_iff)
  have dc: "\<forall>x\<in>to_create. digit_string x"
    using parse_digit_strings [of new_msisdn new_msisdn_list] by (auto simp: tc list_all_iff)
  define st0 where "st0 = log c ''info'' (''ENUM update: delete '' @ repr_set (set_iter to_delete) @
                                   '', create '' @ repr_set (set_iter to_create)) st"
  have a0: "attempts st0 = attempts st" by (simp add: st0_def)
  let ?res = "\<lparr>u_status = Ok, u_deleted = [], u_created = [], u_errors = []\<rparr>"
  note run' = run [unfolded update_enum_entries_def Let_def, folded td tc, folded st0_def]
  have rts: "to_delete \<noteq> {} \<longrightarrow>
             parse_msisdn_list None (Some (join '','' (set_iter to_delete))) = set_iter to_delete"
    "to_create \<noteq> {} \<longrightarrow>
             parse_msisdn_list None (Some (join '','' (set_iter to_create))) = set_iter to_create"
    using iter_roundtrip [of to_delete set_iter, OF _ itd dd]
      iter_roundtrip [of to_create set_iter, OF _ itc dc] by blast+
  obtain x1 res1 st1 where p1: "update_delete_phase patch set_iter c to_delete ?res st0 = (x1, res1, st1)"
    by (cases "update_delete_phase patch set_iter c to_delete ?res st0")
  \<comment> \<open>the delete phase\<close>
  have "\<exists>del. attempts st1 = attempts st @ del \<and> map at_pair del = take (length del) ?D \<and>
          list_all ?RD del \<and>
          (\<forall>e. x1 = Some e \<longrightarrow> phase_aborted (strict_mode c) ?D del e) \<and>
          (x1 = None \<longrightarrow> map at_pair del = ?D \<and> set (u_deleted res1) = to_delete \<and> u_created res1 = [])"
  proof (cases "to_delete = {}")
    case True
    with update_delete_phase_trace [OF en itd dd p1] a0
    have "attempts st1 = attempts st @ []" "x1 = None" "res1 = ?res" by auto
    with True show ?thesis
      by (intro exI [of _ "[]"]) (simp add: calls_for_def)
  next
    case False
    with update_delete_phase_trace [OF en itd dd p1] a0 obtain del out' where
      a: "attempts st1 = attempts st @ del"
      and t: "trace_post (strict_mode c) ''ENUM deletion failed: '' (delete_rrsets (set_iter to_delete))
                ?P [] Ok del out'"
      and l: "\<forall>e. out' = Inl e \<longrightarrow> x1 = Some e"
      and r: "\<forall>r. out' = Inr r \<longrightarrow> x1 = None \<and> u_deleted res1 = set_iter to_delete \<and> u_created res1 = u_created ?res"
      by auto
    note f = phase_facts [OF t]
    have D: "?D = ?P" using False by (simp add: calls_for_def)
    show ?thesis
    proof (cases out')
      case (Inl e)
      with l have x1: "x1 = Some e" by simp
      from t Inl have "phase_aborted (strict_mode c) ?P del e"
        using phase_aborted_trace by metis
      with a f(1,2) x1 D show ?thesis
        by (intro exI [of _ del]) simp
    next
      case (Inr rr)
      with r have x1: "x1 = None" "u_deleted res1 = set_iter to_delete" "u_created res1 = []" by simp_all
      from f(3) [OF Inr] f(1) have "map at_pair del = ?P" by simp
      with a f(1,2) x1 D itd(1) show ?thesis
        by (intro exI [of _ del]) simp
    qed
  qed
  then obtain del where d:
    "attempts st1 = attempts st @ del" "map at_pair del = take (length del) ?D" "list_all ?RD del"
    "\<forall>e. x1 = Some e \<longrightarrow> phase_aborted (strict_mode c) ?D del e"
    "x1 = None \<longrightarrow> map at_pair del = ?D \<and> set (u_deleted res1) = to_delete \<and> u_created res1 = []"
    by blast
  show ?thesis
  proof (cases x1)
    case (Some e)
    with run' p1 en have o: "out = Inl e" "st' = st1"
      by simp_all
    from d(4) Some have "phase_aborted (strict_mode c) ?D del e" by simp
    with o d(1-3) rts show ?thesis
      by (intro exI [of _ del] exI [of _ "[]"]) simp
  next
    case None
    with d(5) have dn: "map at_pair del = ?D" "set (u_deleted res1) = to_delete" "u_created res1 = []"
      by simp_all
    obtain x2 res2 st2 where p2: "update_create_phase patch set_iter c to_create res1 st1 = (x2, res2, st2)"
      by (cases "update_create_phase patch set_iter c to_create res1 st1")
    \<comment> \<open>the create phase\<close>
    have "\<exists>cre. attempts st2 = attempts st1 @ cre \<and> map at_pair cre = take (length cre) ?C \<and>
          list_all ?RC cre \<and>
          (\<forall>e. x2 = Some e \<longrightarrow> phase_aborted (strict_mode c) ?C cre e) \<and>
          (x2 = None \<longrightarrow> map at_pair cre = ?C \<and> set (u_created res2) = to_create \<and>
                          u_deleted res2 = u_deleted res1)"
    proof (cases "to_create = {}")
      case True
      with update_create_phase_trace [OF en itc dc p2]
      have "attempts st2 = attempts st1 @ []" "x2 = None" "res2 = res1" by auto
      with True dn show ?thesis
        by (intro exI [of _ "[]"]) (simp add: calls_for_def)
    next
      case False
      with update_create_phase_trace [OF en itc dc p2] obtain cre out' where
        a: "attempts st2 = attempts st1 @ cre"
        and t: "trace_post (strict_mode c) ''ENUM creation failed: '' (create_rrsets c (set_iter to_create))
                  ?P [] Ok cre out'"
        and l: "\<forall>e. out' = Inl e \<longrightarrow> x2 = Some e"
        and r: "\<forall>r. out' = Inr r \<longrightarrow> x2 = None \<and> u_created res2 = set_iter to_create \<and>
                      u_deleted res2 = u_deleted res1"
        by auto
      note f = phase_facts [OF t]
      have C: "?C = ?P" using False by (simp add: calls_for_def)
      show ?thesis
      proof (cases out')
        case (Inl e)
        with l have x2: "x2 = Some e" by simp
        from t Inl have "phase_aborted (strict_mode c) ?P cre e"
          using phase_aborted_trace by metis
        with a f(1,2) x2 C show ?thesis
          by (intro exI [of _ cre]) simp
      next
        case (Inr rr)
        with r have x2: "x2 = None" "u_created res2 = set_iter to_create" "u_deleted res2 = u_deleted res1"
          by simp_all
        from f(3) [OF Inr] f(1) have "map at_pair cre = ?P" by simp
        with a f(1,2) x2 C itc(1) show ?thesis
          by (intro exI [of _ cre]) simp
      qed
    qed
    then obtain cre where cr:
      "attempts st2 = attempts st1 @ cre" "map at_pair cre = take (length cre) ?C" "list_all ?RC cre"
      "\<forall>e. x2 = Some e \<longrightarrow> phase_aborted (strict_mode c) ?C cre e"
      "x2 = None \<longrightarrow> map at_pair cre = ?C \<and> set (u_created res2) = to_create \<and>
                          u_deleted res2 = u_deleted res1"
      by blast
    from run' p1 p2 en None have st: "st' = st2"
      by (cases x2) simp_all
    show ?thesis
    proof (cases x2)
      case (Some e)
      with run' p1 p2 en None have o: "out = Inl e" by simp
      from cr(4) Some have "phase_aborted (strict_mode c) ?C cre e" by simp
      with o st d(1-3) cr(1-3) dn(1) rts show ?thesis
        by (intro exI [of _ del] exI [of _ cre]) simp
    next
      case x2: None
      with cr(5) have cn: "map at_pair cre = ?C" "set (u_created res2) = to_create"
        "u_deleted res2 = u_deleted res1"
        by simp_all
      from run' p1 p2 en None x2 obtain u where
        o: "out = Inr (UResults u)" and u: "u_deleted u = u_deleted res2" "u_created u = u_created res2"
        by (cases "u_errors res2 = []") auto
      from u cn dn have "set (u_deleted u) = to_delete" "set (u_created u) = to_create" by simp_all
      with o st d(1-3) cr(1-3) dn(1) cn(1) rts show ?thesis
        by (intro exI [of _ del] exI [of _ cre]) simp
    qed
  qed
qed

lemma demo_parse:
  "parse_msisdn_list (Some ''111'') (Some ''222'') = [''111'', ''222'']"
  "parse_msisdn_list (Some ''333'') None = [''333'']"
  by (simp_all add: parse_msisdn_list_def isdigit_def isspace_def strip_def Let_def)

lemma demo_sets:
  "set (parse_msisdn_list (Some ''111'') (Some ''222'')) - set (parse_msisdn_list (Some ''333'') None)
     = {''111'', ''222''}"
  "set (parse_msisdn_list (Some ''333'') None) - set (parse_msisdn_list (Some ''111'') (Some ''222''))
     = {''333''}"
  unfolding demo_parse by simp_all

lemma demo_iter_vals:
  "demo_iter {''111'', ''222''} = [''111'', ''222'']" "demo_iter {''333''} = [''333'']"
  by (simp_all add: demo_iter_def)

lemma demo_rejoin:
  "parse_msisdn_list None (Some (join '','' [''111'', ''222''])) = [''111'', ''222'']"
  "parse_msisdn_list None (Some (join '','' [''333''])) = [''333'']"
  by (simp_all add: parse_msisdn_list_def isdigit_def isspace_def strip_def Let_def)

lemma delete_demo_run:
  "fst (delete_enum_entries ok_patch (demo_client True False [demo_endpoint]) None
          (Some (join '','' [''111'', ''222''])) st) =
     Inr (Results \<lparr>r_status = Ok,
            r_endpoints = [(''pdns1'', [(''e164.arpa'', True, [''111'', ''222'']),
                                        (''e164.example'', True, [''111'', ''222''])])],
            r_errors = []\<rparr>)"
  unfolding delete_enum_entries_def demo_rejoin Let_def
  by (simp add: make_pdns_request_def log_def Let_def endpoint_name_def demo_endpoint_def demo_client_def
        ok_patch_def)

lemma create_demo_run:
  "fst (create_enum_entries ok_patch (demo_client True False [demo_endpoint]) None
          (Some (join '','' [''333''])) st) =
     Inr (Results \<lparr>r_status = Ok,
            r_endpoints = [(''pdns1'', [(''e164.arpa'', True, [''333'']),
                                        (''e164.example'', True, [''333''])])],
            r_errors = []\<rparr>)"
  unfolding create_enum_entries_def demo_rejoin Let_def
  by (simp add: make_pdns_request_def log_def Let_def endpoint_name_def demo_endpoint_def demo_client_def
        ok_patch_def)

lemma delete_demo_attempts:
  "attempts (snd (delete_enum_entries ok_patch (demo_client True False [demo_endpoint]) None
          (Some (join '','' [''111'', ''222''])) st)) =
     attempts st @
     [ok_attempt ''e164.arpa'' (delete_rrsets [''111'', ''222''] demo_endpoint ''e164.arpa''),
      ok_attempt ''e164.example'' (delete_rrsets [''111'', ''222''] demo_endpoint ''e164.example'')]"
  unfolding delete_enum_entries_def demo_rejoin Let_def
  by (simp add: make_pdns_request_def log_def Let_def endpoint_name_def demo_endpoint_def demo_client_def
        ok_patch_def ok_attempt_def delete_rrsets_def)

lemma create_demo_attempts:
  "attempts (snd (create_enum_entries ok_patch (demo_client True False [demo_endpoint]) None
          (Some (join '','' [''333''])) st)) =
     attempts st @
     [ok_attempt ''e164.arpa''
        (create_rrsets (demo_client True False [demo_endpoint]) [''333''] demo_endpoint ''e164.arpa''),
      ok_attempt ''e164.example''
        (create_rrsets (demo_client True False [demo_endpoint]) [''333''] demo_endpoint ''e164.example'')]"
  unfolding create_enum_entries_def demo_rejoin Let_def
  by (simp add: make_pdns_request_def log_def Let_def endpoint_name_def demo_endpoint_def demo_client_def
        ok_patch_def ok_attempt_def create_rrsets_def sip_of_def)

lemma delete_phase_demo:
  "update_delete_phase ok_patch demo_iter (demo_client True False [demo_endpoint]) {''111'', ''222''} res st =
     (None, res\<lparr>u_deleted := [''111'', ''222'']\<rparr>,
      snd (delete_enum_entries ok_patch (demo_client True False [demo_endpoint]) None
             (Some (join '','' [''111'', ''222''])) st))"
proof -
  obtain o1 s1 where call: "delete_enum_entries ok_patch (demo_client True False [demo_endpoint]) None
             (Some (join '','' [''111'', ''222''])) st = (o1, s1)"
    by (cases "delete_enum_entries ok_patch (demo_client True False [demo_endpoint]) None
             (Some (join '','' [''111'', ''222''])) st")
  with delete_demo_run [of st] have o1: "o1 = Inr (Results \<lparr>r_status = Ok,
            r_endpoints = [(''pdns1'', [(''e164.arpa'', True, [''111'', ''222'']),
                                        (''e164.example'', True, [''111'', ''222''])])],
            r_errors = []\<rparr>)"
    by simp
  show ?thesis
    unfolding update_delete_phase_def demo_iter_vals Let_def call o1 by simp
qed

lemma create_phase_demo:
  "update_create_phase ok_patch demo_iter (demo_client True False [demo_endpoint]) {''333''} res st =
     (None, res\<lparr>u_created := [''333'']\<rparr>,
      snd (create_enum_entries ok_patch (demo_client True False [demo_endpoint]) None
             (Some (join '','' [''333''])) st))"
proof -
  obtain o1 s1 where call: "create_enum_entries ok_patch (demo_client True False [demo_endpoint]) None
             (Some (join '','' [''333''])) st = (o1, s1)"
    by (cases "create_enum_entries ok_patch (demo_client True False [demo_endpoint]) None
             (Some (join '','' [''333''])) st")
  with create_demo_run [of st] have o1: "o1 = Inr (Results \<lparr>r_status = Ok,
            r_endpoints = [(''pdns1'', [(''e164.arpa'', True, [''333'']),
                                        (''e164.example'', True, [''333''])])],
            r_errors = []\<rparr>)"
    by simp
  show ?thesis
    unfolding update_create_phase_def demo_iter_vals Let_def call o1 by simp
qed

lemma update_demo_run:
  "fst (update_enum_entries ok_patch demo_iter (demo_client True False [demo_endpoint])
          (Some ''111'') (Some ''222'') (Some ''333'') None env0) =
     Inr (UResults \<lparr>u_status = Ok, u_deleted = [''111'', ''222''], u_created = [''333''], u_errors = []\<rparr>)"
proof -
  have en: "enabled (demo_client True False [demo_endpoint])" by (simp add: demo_client_def)
  show ?thesis
    unfolding update_enum_entries_def Let_def demo_sets delete_phase_demo create_phase_demo
    using en by simp
qed

lemma demo_attempts_joined:
  "attempts (snd (delete_enum_entries ok_patch (demo_client True False [demo_endpoint]) None
          (Some ''111,222'') st)) =
     attempts st @
     [ok_attempt ''e164.arpa'' (delete_rrsets [''111'', ''222''] demo_endpoint ''e164.arpa''),
      ok_attempt ''e164.example'' (delete_rrsets [''111'', ''222''] demo_endpoint ''e164.example'')]"
  "attempts (snd (create_enum_entries ok_patch (demo_client True False [demo_endpoint]) None
          (Some ''333'') st)) =
     attempts st @
     [ok_attempt ''e164.arpa''
        (create_rrsets (demo_client True False [demo_endpoint]) [''333''] demo_endpoint ''e164.arpa''),
      ok_attempt ''e164.example''
        (create_rrsets (demo_client True False [demo_endpoint]) [''333''] demo_endpoint ''e164.example'')]"
  using delete_demo_attempts [of st] create_demo_attempts [of st] by simp_all

lemma update_demo_attempts:
  "attempts (snd (update_enum_entries ok_patch demo_iter (demo_client True False [demo_endpoint])
          (Some ''111'') (Some ''222'') (Some ''333'') None env0)) =
     [ok_attempt ''e164.arpa'' (delete_rrsets [''111'', ''222''] demo_endpoint ''e164.arpa''),
      ok_attempt ''e164.example'' (delete_rrsets [''111'', ''222''] demo_endpoint ''e164.example''),
      ok_attempt ''e164.arpa''
        (create_rrsets (demo_client True False [demo_endpoint]) [''333''] demo_endpoint ''e164.arpa''),
      ok_attempt ''e164.example''
        (create_rrsets (demo_client True False [demo_endpoint]) [''333''] demo_endpoint ''e164.example'')]"
proof -
  have en: "enabled (demo_client True False [demo_endpoint])" by (simp add: demo_client_def)
  show ?thesis
    unfolding update_enum_entries_def Let_def demo_sets delete_phase_demo create_phase_demo
    using en by (simp add: demo_attempts_joined attempts_env0)
qed

lemma demo_calls:
  "calls_for {''111'', ''222''} (endpoints (demo_client True False [demo_endpoint])) =
     [(demo_endpoint, ''e164.arpa''), (demo_endpoint, ''e164.example'')]"
  "calls_for {''333''} (endpoints (demo_client True False [demo_endpoint])) =
     [(demo_endpoint, ''e164.arpa''), (demo_endpoint, ''e164.example'')]"
  by (simp_all add: calls_for_def pairs_of_def domains_of_def demo_client_def demo_endpoint_def)

theorem update_set_difference_witness:
  "enabled (demo_client True False [demo_endpoint]) \<and>
   set (parse_msisdn_list (Some ''111'') (Some ''222'')) - set (parse_msisdn_list (Some ''333'') None)
     = {''111'', ''222''} \<and>
   set (parse_msisdn_list (Some ''333'') None) - set (parse_msisdn_list (Some ''111'') (Some ''222''))
     = {''333''} \<and>
   demo_iter {''111'', ''222''} = [''111'', ''222''] \<and> demo_iter {''333''} = [''333''] \<and>
   fst (update_enum_entries ok_patch demo_iter (demo_client True False [demo_endpoint])
          (Some ''111'') (Some ''222'') (Some ''333'') None env0) =
     Inr (UResults \<lparr>u_status = Ok, u_deleted = [''111'', ''222''], u_created = [''333''], u_errors = []\<rparr>) \<and>
   attempts (snd (update_enum_entries ok_patch demo_iter (demo_client True False [demo_endpoint])
          (Some ''111'') (Some ''222'') (Some ''333'') None env0)) =
     [ok_attempt ''e164.arpa'' (delete_rrsets [''111'', ''222''] demo_endpoint ''e164.arpa''),
      ok_attempt ''e164.example'' (delete_rrsets [''111'', ''222''] demo_endpoint ''e164.example''),
      ok_attempt ''e164.arpa''
        (create_rrsets (demo_client True False [demo_endpoint]) [''333''] demo_endpoint ''e164.arpa''),
      ok_attempt ''e164.example''
        (create_rrsets (demo_client True False [demo_endpoint]) [''333''] demo_endpoint ''e164.example'')] \<and>
   (\<exists>del cre.
      attempts (snd (update_enum_entries ok_patch demo_iter (demo_client True False [demo_endpoint])
          (Some ''111'') (Some ''222'') (Some ''333'') None env0)) = attempts env0 @ del @ cre \<and>
      map at_pair del = [(demo_endpoint, ''e164.arpa''), (demo_endpoint, ''e164.example'')] \<and>
      map at_pair cre = [(demo_endpoint, ''e164.arpa''), (demo_endpoint, ''e164.example'')] \<and>
      list_all (\<lambda>a. at_rrsets a = delete_rrsets [''111'', ''222''] (at_endpoint a) (at_zone a)) del \<and>
      list_all (\<lambda>a. at_rrsets a = create_rrsets (demo_client True False [demo_endpoint]) [''333'']
                                    (at_endpoint a) (at_zone a)) cre)"
proof -
  let ?c = "demo_client True False [demo_endpoint]"
  let ?run = "update_enum_entries ok_patch demo_iter ?c (Some ''111'') (Some ''222'') (Some ''333'') None env0"
  let ?u = "UResults \<lparr>u_status = Ok, u_deleted = [''111'', ''222''], u_created = [''333''], u_errors = []\<rparr>"
  have en: "enabled ?c" by (simp add: demo_client_def)
  have i1: "set (demo_iter {''111'', ''222''}) = {''111'', ''222''}" "distinct (demo_iter {''111'', ''222''})"
    and i2: "set (demo_iter {''333''}) = {''333''}" "distinct (demo_iter {''333''})"
    by (simp_all add: demo_iter_vals)
  have r: "?run = (fst ?run, snd ?run)" by simp
  note th = update_set_difference [OF en demo_sets(1) [symmetric] demo_sets(2) [symmetric] i1 i2 r,
      unfolded demo_iter_vals demo_calls]
  from th obtain del cre where
    h1: "attempts (snd ?run) = attempts env0 @ del @ cre"
    and h4: "list_all (\<lambda>a. at_rrsets a = delete_rrsets [''111'', ''222''] (at_endpoint a) (at_zone a)) del"
    and h5: "list_all (\<lambda>a. at_rrsets a = create_rrsets ?c [''333''] (at_endpoint a) (at_zone a)) cre"
    and h6: "\<forall>r. fst ?run = Inr r \<longrightarrow>
               map at_pair del = [(demo_endpoint, ''e164.arpa''), (demo_endpoint, ''e164.example'')] \<and>
               map at_pair cre = [(demo_endpoint, ''e164.arpa''), (demo_endpoint, ''e164.example'')] \<and>
               (\<exists>u. r = UResults u \<and> set (u_deleted u) = {''111'', ''222''} \<and> set (u_created u) = {''333''})"
    by iprover
  from h6 update_demo_run have
    h2: "map at_pair del = [(demo_endpoint, ''e164.arpa''), (demo_endpoint, ''e164.example'')]"
    and h3: "map at_pair cre = [(demo_endpoint, ''e164.arpa''), (demo_endpoint, ''e164.example'')]"
    by iprover+
  have ex: "\<exists>del cre.
      attempts (snd ?run) = attempts env0 @ del @ cre \<and>
      map at_pair del = [(demo_endpoint, ''e164.arpa''), (demo_endpoint, ''e164.example'')] \<and>
      map at_pair cre = [(demo_endpoint, ''e164.arpa''), (demo_endpoint, ''e164.example'')] \<and>
      list_all (\<lambda>a. at_rrsets a = delete_rrsets [''111'', ''222''] (at_endpoint a) (at_zone a)) del \<and>
      list_all (\<lambda>a. at_rrsets a = create_rrsets ?c [''333''] (at_endpoint a) (at_zone a)) cre"
    using h1 h2 h3 h4 h5 by iprover
  show ?thesis
    by (intro conjI en demo_sets demo_iter_vals update_demo_run update_demo_attempts ex)
qed

end
